theory Spec2Isabelle
  imports
    Main
    "HOL-Library.Word"
    "HOL-Library.Multiset"
    "HOL-Library.Char_ord"
    "HOL-Library.List_Lexorder"
begin

unbundle bit_operations_syntax

section \<open>Relation data: decoded JSON values\<close>

text \<open>
  The provides side of the AWS integration interface (\<^verbatim>\<open>provides.py\<close>) reads what a
  remote unit has published on the relation. Every value it sees is a decoded JSON
  document. JSON numbers with a fractional part are left out of the model; a string is a
  list of characters, each standing for one code point below 256.
\<close>

datatype json =
    JNull
  | JBool bool
  | JInt int
  | JStr string
  | JList "json list"
  | JObj "(string \<times> json) list"

text \<open>The exceptions the operations of the module can raise.\<close>

datatype error = TypeError | ValueError

subsection \<open>Truth values, \<^verbatim>\<open>and\<close>, \<^verbatim>\<open>or\<close>\<close>

fun truthy :: "json \<Rightarrow> bool" where
  "truthy JNull = False"
| "truthy (JBool b) = b"
| "truthy (JInt i) = (i \<noteq> 0)"
| "truthy (JStr s) = (s \<noteq> [])"
| "truthy (JList xs) = (xs \<noteq> [])"
| "truthy (JObj kvs) = (kvs \<noteq> [])"

text \<open>\<^verbatim>\<open>a and b\<close> is \<^verbatim>\<open>a\<close> when \<^verbatim>\<open>a\<close> is falsy, else \<^verbatim>\<open>b\<close>;
  \<^verbatim>\<open>a or b\<close> is \<^verbatim>\<open>a\<close> when \<^verbatim>\<open>a\<close> is truthy, else \<^verbatim>\<open>b\<close>.\<close>

definition py_and :: "json \<Rightarrow> json \<Rightarrow> json" where
  "py_and a b = (if truthy a then b else a)"

definition py_or :: "json \<Rightarrow> json \<Rightarrow> json" where
  "py_or a b = (if truthy a then a else b)"

subsection \<open>Rendering: \<^verbatim>\<open>str\<close> and \<^verbatim>\<open>repr\<close>\<close>

definition hexdigits :: string where
  "hexdigits = ''0123456789abcdef''"

definition hexdigit :: "nat \<Rightarrow> char" where
  "hexdigit n = hexdigits ! (n mod 16)"

definition hex2 :: "nat \<Rightarrow> string" where
  "hex2 n = [hexdigit (n div 16), hexdigit n]"

fun dec_nat :: "nat \<Rightarrow> string" where
  "dec_nat n = (if n < 10 then [hexdigit n] else dec_nat (n div 10) @ [hexdigit (n mod 10)])"

definition dec_int :: "int \<Rightarrow> string" where
  "dec_int i = (if i < 0 then CHR ''-'' # dec_nat (nat (- i)) else dec_nat (nat i))"

fun join :: "string \<Rightarrow> string list \<Rightarrow> string" where
  "join sep [] = []"
| "join sep [x] = x"
| "join sep (x # y # ys) = x @ sep @ join sep (y # ys)"

text \<open>\<^verbatim>\<open>repr\<close> of a string: single quotes unless the string has a single quote and no
  double quote; the quote and the backslash are escaped, so are the characters that are
  not printable.\<close>

definition repr_char :: "char \<Rightarrow> char \<Rightarrow> string" where
  "repr_char q c =
     (let n = (of_char c :: nat) in
      if c = q \<or> c = CHR 0x5C then [CHR 0x5C, c]
      else if c = CHR 0x09 then [CHR 0x5C, CHR ''t'']
      else if c = CHR 0x0A then [CHR 0x5C, CHR ''n'']
      else if c = CHR 0x0D then [CHR 0x5C, CHR ''r'']
      else if n < 32 \<or> n = 127 \<or> (128 \<le> n \<and> n \<le> 160) \<or> n = 173
        then [CHR 0x5C, CHR ''x''] @ hex2 n
      else [c])"

definition repr_str :: "string \<Rightarrow> string" where
  "repr_str s =
     (let q = (if CHR 0x27 \<in> set s \<and> CHR 0x22 \<notin> set s then CHR 0x22 else CHR 0x27)
      in [q] @ concat (map (repr_char q) s) @ [q])"

fun py_repr :: "json \<Rightarrow> string" where
  "py_repr JNull = ''None''"
| "py_repr (JBool b) = (if b then ''True'' else ''False'')"
| "py_repr (JInt i) = dec_int i"
| "py_repr (JStr s) = repr_str s"
| "py_repr (JList xs) = ''['' @ join '', '' (map py_repr xs) @ '']''"
| "py_repr (JObj kvs) =
     ''{'' @ join '', '' (map (\<lambda>kv. repr_str (fst kv) @ '': '' @ py_repr (snd kv)) kvs) @ ''}''"

text \<open>\<^verbatim>\<open>'{}'.format(v)\<close> and \<^verbatim>\<open>str(v)\<close>: a string is itself, anything else its
  \<^verbatim>\<open>repr\<close>.\<close>

definition py_str :: "json \<Rightarrow> string" where
  "py_str v = (case v of JStr s \<Rightarrow> s | _ \<Rightarrow> py_repr v)"

subsection \<open>\<^verbatim>\<open>json.dumps(..., sort_keys=True)\<close>\<close>

text \<open>The default encoder: ASCII only, separators \<^verbatim>\<open>', '\<close> and \<^verbatim>\<open>': '\<close>, and with
  \<^verbatim>\<open>sort_keys\<close> the items of every object sorted by key. The keys of a dictionary are
  distinct, so sorting the items is sorting by key.\<close>

definition json_escape :: "char \<Rightarrow> string" where
  "json_escape c =
     (let n = (of_char c :: nat) in
      if c = CHR 0x22 then [CHR 0x5C, CHR 0x22]
      else if c = CHR 0x5C then [CHR 0x5C, CHR 0x5C]
      else if c = CHR 0x0A then [CHR 0x5C, CHR ''n'']
      else if c = CHR 0x0D then [CHR 0x5C, CHR ''r'']
      else if c = CHR 0x09 then [CHR 0x5C, CHR ''t'']
      else if c = CHR 0x08 then [CHR 0x5C, CHR ''b'']
      else if c = CHR 0x0C then [CHR 0x5C, CHR ''f'']
      else if 32 \<le> n \<and> n \<le> 126 then [c]
      else [CHR 0x5C, CHR ''u'', CHR ''0'', CHR ''0''] @ hex2 n)"

definition json_string :: "string \<Rightarrow> string" where
  "json_string s = [CHR 0x22] @ concat (map json_escape s) @ [CHR 0x22]"

fun json_dumps :: "json \<Rightarrow> string" where
  "json_dumps JNull = ''null''"
| "json_dumps (JBool b) = (if b then ''true'' else ''false'')"
| "json_dumps (JInt i) = dec_int i"
| "json_dumps (JStr s) = json_string s"
| "json_dumps (JList xs) = ''['' @ join '', '' (map json_dumps xs) @ '']''"
| "json_dumps (JObj kvs) =
     ''{'' @ join '', ''
        (map (\<lambda>kv. json_string (fst kv) @ '': '' @ json_dumps (snd kv)) (sort_key fst kvs))
      @ ''}''"

subsection \<open>\<^verbatim>\<open>hashlib.sha256(...).hexdigest()\<close>\<close>

text \<open>SHA-256 as in FIPS 180-4, on a list of bytes.\<close>

type_synonym w32 = "32 word"

type_synonym sha_state = "w32 \<times> w32 \<times> w32 \<times> w32 \<times> w32 \<times> w32 \<times> w32 \<times> w32"

definition rotr :: "nat \<Rightarrow> w32 \<Rightarrow> w32" where
  "rotr n x = drop_bit n x OR push_bit (32 - n) x"

definition Ch :: "w32 \<Rightarrow> w32 \<Rightarrow> w32 \<Rightarrow> w32" where
  "Ch x y z = (x AND y) XOR (NOT x AND z)"

definition Maj :: "w32 \<Rightarrow> w32 \<Rightarrow> w32 \<Rightarrow> w32" where
  "Maj x y z = (x AND y) XOR (x AND z) XOR (y AND z)"

definition bsig0 :: "w32 \<Rightarrow> w32" where
  "bsig0 x = rotr 2 x XOR rotr 13 x XOR rotr 22 x"

definition bsig1 :: "w32 \<Rightarrow> w32" where
  "bsig1 x = rotr 6 x XOR rotr 11 x XOR rotr 25 x"

definition ssig0 :: "w32 \<Rightarrow> w32" where
  "ssig0 x = rotr 7 x XOR rotr 18 x XOR drop_bit 3 x"

definition ssig1 :: "w32 \<Rightarrow> w32" where
  "ssig1 x = rotr 17 x XOR rotr 19 x XOR drop_bit 10 x"

definition K256 :: "w32 list" where
  "K256 =
    [0x428A2F98, 0x71374491, 0xB5C0FBCF, 0xE9B5DBA5,
     0x3956C25B, 0x59F111F1, 0x923F82A4, 0xAB1C5ED5,
     0xD807AA98, 0x12835B01, 0x243185BE, 0x550C7DC3,
     0x72BE5D74, 0x80DEB1FE, 0x9BDC06A7, 0xC19BF174,
     0xE49B69C1, 0xEFBE4786, 0x0FC19DC6, 0x240CA1CC,
     0x2DE92C6F, 0x4A7484AA, 0x5CB0A9DC, 0x76F988DA,
     0x983E5152, 0xA831C66D, 0xB00327C8, 0xBF597FC7,
     0xC6E00BF3, 0xD5A79147, 0x06CA6351, 0x14292967,
     0x27B70A85, 0x2E1B2138, 0x4D2C6DFC, 0x53380D13,
     0x650A7354, 0x766A0ABB, 0x81C2C92E, 0x92722C85,
     0xA2BFE8A1, 0xA81A664B, 0xC24B8B70, 0xC76C51A3,
     0xD192E819, 0xD6990624, 0xF40E3585, 0x106AA070,
     0x19A4C116, 0x1E376C08, 0x2748774C, 0x34B0BCB5,
     0x391C0CB3, 0x4ED8AA4A, 0x5B9CCA4F, 0x682E6FF3,
     0x748F82EE, 0x78A5636F, 0x84C87814, 0x8CC70208,
     0x90BEFFFA, 0xA4506CEB, 0xBEF9A3F7, 0xC67178F2]"

definition H256 :: sha_state where
  "H256 =
    (0x6A09E667, 0xBB67AE85, 0x3C6EF372, 0xA54FF53A,
     0x510E527F, 0x9B05688C, 0x1F83D9AB, 0x5BE0CD19)"

definition sha_pad :: "8 word list \<Rightarrow> 8 word list" where
  "sha_pad bs =
     (let bitlen = (of_nat (8 * length bs) :: 64 word) in
      bs @ [0x80] @ replicate ((119 - length bs mod 64) mod 64) 0
         @ map (\<lambda>i. ucast (drop_bit (8 * i) bitlen)) [7, 6, 5, 4, 3, 2, 1, 0])"

definition be32 :: "8 word list \<Rightarrow> w32" where
  "be32 bs = foldl (\<lambda>acc b. push_bit 8 acc OR ucast b) 0 bs"

definition sha_blocks :: "8 word list \<Rightarrow> w32 list list" where
  "sha_blocks bs =
     map (\<lambda>i. map (\<lambda>j. be32 (take 4 (drop (64 * i + 4 * j) bs))) [0..<16])
       [0..<length bs div 64]"

fun sha_extend :: "nat \<Rightarrow> w32 list \<Rightarrow> w32 list" where
  "sha_extend 0 ws = ws"
| "sha_extend (Suc n) ws =
     (let t = length ws in
      sha_extend n
        (ws @ [ssig1 (ws ! (t - 2)) + ws ! (t - 7) + ssig0 (ws ! (t - 15)) + ws ! (t - 16)]))"

fun sha_round :: "sha_state \<Rightarrow> w32 \<times> w32 \<Rightarrow> sha_state" where
  "sha_round (a, b, c, d, e, f, g, h) (k, w) =
     (let t1 = h + bsig1 e + Ch e f g + k + w;
          t2 = bsig0 a + Maj a b c
      in (t1 + t2, a, b, c, d + t1, e, f, g))"

fun sha_add :: "sha_state \<Rightarrow> sha_state \<Rightarrow> sha_state" where
  "sha_add (a, b, c, d, e, f, g, h) (a', b', c', d', e', f', g', h') =
     (a + a', b + b', c + c', d + d', e + e', f + f', g + g', h + h')"

definition sha_compress :: "sha_state \<Rightarrow> w32 list \<Rightarrow> sha_state" where
  "sha_compress st blk = sha_add st (foldl sha_round st (zip K256 (sha_extend 48 blk)))"

definition hex32 :: "w32 \<Rightarrow> string" where
  "hex32 w = map (\<lambda>i. hexdigit (unat (drop_bit (4 * i) w AND 0xF))) [7, 6, 5, 4, 3, 2, 1, 0]"

fun sha_hex :: "sha_state \<Rightarrow> string" where
  "sha_hex (a, b, c, d, e, f, g, h) = concat (map hex32 [a, b, c, d, e, f, g, h])"

definition sha256_hexdigest :: "8 word list \<Rightarrow> string" where
  "sha256_hexdigest bs = sha_hex (foldl sha_compress H256 (sha_blocks (sha_pad bs)))"

text \<open>\<^verbatim>\<open>s.encode('utf8')\<close> for a string of ASCII characters, which is all the JSON
  encoder produces.\<close>

definition encode_utf8 :: "string \<Rightarrow> 8 word list" where
  "encode_utf8 s = map of_char s"

section \<open>Python dictionaries and the copying constructors\<close>

text \<open>A dictionary key is a hashable value. Among decoded JSON values those are
  \<^verbatim>\<open>None\<close>, the booleans, the integers and the strings, where \<^verbatim>\<open>True\<close> and
  \<^verbatim>\<open>1\<close> (and \<^verbatim>\<open>False\<close> and \<^verbatim>\<open>0\<close>) are one key; a list or a dictionary used as
  a key raises \<^verbatim>\<open>TypeError\<close>.\<close>

datatype key = KNone | KInt int | KStr string

fun py_key :: "json \<Rightarrow> error + key" where
  "py_key JNull = Inr KNone"
| "py_key (JBool b) = Inr (KInt (if b then 1 else 0))"
| "py_key (JInt i) = Inr (KInt i)"
| "py_key (JStr s) = Inr (KStr s)"
| "py_key (JList xs) = Inl TypeError"
| "py_key (JObj kvs) = Inl TypeError"

fun hashable :: "json \<Rightarrow> bool" where
  "hashable (JList xs) = False"
| "hashable (JObj kvs) = False"
| "hashable v = True"

text \<open>Iterating a value: a list gives its elements, a string its characters, a
  dictionary its keys; anything else is not iterable.\<close>

fun py_iter :: "json \<Rightarrow> error + json list" where
  "py_iter (JList xs) = Inr xs"
| "py_iter (JStr s) = Inr (map (\<lambda>c. JStr [c]) s)"
| "py_iter (JObj kvs) = Inr (map (\<lambda>kv. JStr (fst kv)) kvs)"
| "py_iter v = Inl TypeError"

fun dict_setitem :: "key \<Rightarrow> json \<Rightarrow> (key \<times> json) list \<Rightarrow> (key \<times> json) list" where
  "dict_setitem k v [] = [(k, v)]"
| "dict_setitem k v (p # ps) = (if fst p = k then (k, v) # ps else p # dict_setitem k v ps)"

text \<open>\<^verbatim>\<open>dict(seq)\<close> for a sequence: every element must itself iterate to exactly two
  items, a hashable key and a value.\<close>

fun dict_update_seq :: "(key \<times> json) list \<Rightarrow> json list \<Rightarrow> error + (key \<times> json) list" where
  "dict_update_seq d [] = Inr d"
| "dict_update_seq d (e # es) =
     (case py_iter e of
        Inl err \<Rightarrow> Inl TypeError
      | Inr [k, v] \<Rightarrow>
          (case py_key k of
             Inl err \<Rightarrow> Inl err
           | Inr k' \<Rightarrow> dict_update_seq (dict_setitem k' v d) es)
      | Inr items \<Rightarrow> Inl ValueError)"

text \<open>\<^verbatim>\<open>dict(v)\<close> builds a new dictionary: from a mapping its items, from anything else
  the pairs it iterates to. \<^verbatim>\<open>list(v)\<close> builds a new list of what \<^verbatim>\<open>v\<close> iterates to.\<close>

definition py_dict :: "json \<Rightarrow> error + (key \<times> json) list" where
  "py_dict v =
     (case v of
        JObj kvs \<Rightarrow> Inr (map (\<lambda>kv. (KStr (fst kv), snd kv)) kvs)
      | _ \<Rightarrow> (case py_iter v of Inl err \<Rightarrow> Inl err | Inr xs \<Rightarrow> dict_update_seq [] xs))"

definition py_list :: "json \<Rightarrow> error + json list" where
  "py_list v = py_iter v"

section \<open>The host framework\<close>

text \<open>
  Modelled from the spec: the relation transport, the key-value store and the flags are
  supplied by the host framework (\<^verbatim>\<open>charms.reactive\<close>, \<^verbatim>\<open>charmhelpers\<close>), which is not
  part of the source. A participant carries a mapping of received data, read with
  default-valued lookups (a subscript of an absent key gives \<^verbatim>\<open>None\<close>); a relation
  carries a mutable outgoing mapping, in which the key \<^verbatim>\<open>completed\<close> holds the published
  completion map from instance identifier to acknowledged hash; the store offers get,
  set and unset on string keys; an indicator is a named boolean that is set or cleared.
  The store and the outgoing mapping give back what was stored under a key, as it was
  stored: how the framework encodes the values it persists or publishes is not modelled.
\<close>

record relation =
  relation_id :: string
  endpoint :: string

text \<open>The received data is a mapping: a list of items whose keys are distinct.\<close>

record remote_unit =
  unit_name :: string
  application_name :: string
  relation :: relation
  received :: "(string \<times> json) list"

record host =
  kv :: "string \<rightharpoonup> json"
  to_publish :: "relation \<Rightarrow> string \<rightharpoonup> (key \<rightharpoonup> json)"
  flags :: "string set"

definition received_getitem :: "(string \<times> json) list \<Rightarrow> string \<Rightarrow> json" where
  "received_getitem d k = (case map_of d k of None \<Rightarrow> JNull | Some v \<Rightarrow> v)"

definition received_get :: "(string \<times> json) list \<Rightarrow> string \<Rightarrow> json \<Rightarrow> json" where
  "received_get d k dflt = (case map_of d k of None \<Rightarrow> dflt | Some v \<Rightarrow> v)"

definition kv_get :: "host \<Rightarrow> string \<Rightarrow> json" where
  "kv_get w k = (case kv w k of None \<Rightarrow> JNull | Some v \<Rightarrow> v)"

definition kv_set :: "string \<Rightarrow> json \<Rightarrow> host \<Rightarrow> host" where
  "kv_set k v w = w\<lparr>kv := (kv w)(k \<mapsto> v)\<rparr>"

definition kv_unset :: "string \<Rightarrow> host \<Rightarrow> host" where
  "kv_unset k w = w\<lparr>kv := (kv w)(k := None)\<rparr>"

definition publish_get :: "host \<Rightarrow> relation \<Rightarrow> string \<Rightarrow> (key \<rightharpoonup> json) \<Rightarrow> (key \<rightharpoonup> json)" where
  "publish_get w rel k dflt = (case to_publish w rel k of None \<Rightarrow> dflt | Some m \<Rightarrow> m)"

definition publish_set :: "relation \<Rightarrow> string \<Rightarrow> (key \<rightharpoonup> json) \<Rightarrow> host \<Rightarrow> host" where
  "publish_set rel k m w = w\<lparr>to_publish := (to_publish w)(rel := (to_publish w rel)(k \<mapsto> m))\<rparr>"

definition toggle_flag :: "string \<Rightarrow> bool \<Rightarrow> host \<Rightarrow> host" where
  "toggle_flag f b w = w\<lparr>flags := (if b then insert f (flags w) else flags w - {f})\<rparr>"

definition clear_flag :: "string \<Rightarrow> host \<Rightarrow> host" where
  "clear_flag f w = w\<lparr>flags := flags w - {f}\<rparr>"

text \<open>\<^verbatim>\<open>expand_name\<close> completes a flag for an endpoint: a flag without the placeholder
  \<^verbatim>\<open>{endpoint_name}\<close> is prefixed with \<^verbatim>\<open>endpoint.{endpoint_name}.\<close>, then every
  placeholder is replaced by the name of the endpoint.\<close>

definition placeholder :: string where
  "placeholder = ''{endpoint_name}''"

fun has_placeholder :: "string \<Rightarrow> bool" where
  "has_placeholder [] = False"
| "has_placeholder (c # cs) = (take 15 (c # cs) = placeholder \<or> has_placeholder cs)"

fun replace_placeholder :: "string \<Rightarrow> string \<Rightarrow> string" where
  "replace_placeholder n [] = []"
| "replace_placeholder n (c # cs) =
     (if take 15 (c # cs) = placeholder then n @ replace_placeholder n (drop 14 cs)
      else c # replace_placeholder n cs)"

definition expand_name :: "string \<Rightarrow> string \<Rightarrow> string" where
  "expand_name n flag =
     replace_placeholder n
       (if has_placeholder flag then flag else ''endpoint.{endpoint_name}.'' @ flag)"

section \<open>IntegrationRequest\<close>

text \<open>A request for integration from a single remote unit. The constructor keeps the
  unit and the SHA-256 digest of its received data, dumped as JSON with sorted keys.\<close>

record request =
  req_unit :: remote_unit
  hash :: string

definition request_hash :: "(string \<times> json) list \<Rightarrow> string" where
  "request_hash d = sha256_hexdigest (encode_utf8 (json_dumps (JObj d)))"

definition IntegrationRequest :: "remote_unit \<Rightarrow> request" where
  "IntegrationRequest u = \<lparr>req_unit = u, hash = request_hash (received u)\<rparr>"

definition requested :: "request \<Rightarrow> json" where
  "requested r = received_getitem (received (req_unit r)) ''requested''"

definition instance_id :: "request \<Rightarrow> json" where
  "instance_id r = received_getitem (received (req_unit r)) ''instance-id''"

definition region :: "request \<Rightarrow> json" where
  "region r = received_getitem (received (req_unit r)) ''region''"

definition hash_key :: "request \<Rightarrow> string" where
  "hash_key r = expand_name (endpoint (relation (req_unit r))) (''request.'' @ py_str (instance_id r))"

definition changed :: "request \<Rightarrow> host \<Rightarrow> bool" where
  "changed r w =
     (if \<not> truthy (py_and (instance_id r) (requested r)) then False
      else kv_get w (hash_key r) \<noteq> JStr (hash r))"

definition mark_completed :: "request \<Rightarrow> host \<Rightarrow> error + host" where
  "mark_completed r w =
     (let completed = publish_get w (relation (req_unit r)) ''completed'' Map.empty in
      case py_key (instance_id r) of
        Inl err \<Rightarrow> Inl err
      | Inr k \<Rightarrow>
          (let completed' = completed(k \<mapsto> JStr (hash r));
               w1 = kv_set (hash_key r) (JStr (hash r)) w
           in Inr (publish_set (relation (req_unit r)) ''completed'' completed' w1)))"

definition clear :: "request \<Rightarrow> host \<Rightarrow> host" where
  "clear r w = kv_unset (hash_key r) w"

definition completed_for_instance :: "request \<Rightarrow> host \<Rightarrow> json" where
  "completed_for_instance r w =
     (let instance_hash = kv_get w (hash_key r) in
      py_and (instance_id r)
        (py_and (requested r)
          (py_and instance_hash (JBool (instance_hash = JStr (hash r))))))"

definition is_completed :: "request \<Rightarrow> host \<Rightarrow> error + bool" where
  "is_completed r w =
     (let completed = publish_get w (relation (req_unit r)) ''completed'' Map.empty in
      case py_key (instance_id r) of
        Inl err \<Rightarrow> Inl err
      | Inr k \<Rightarrow> Inr (completed k = Some (JStr (hash r))))"

subsection \<open>Typed accessors\<close>

definition tags_of :: "request \<Rightarrow> string \<Rightarrow> error + (key \<times> json) list" where
  "tags_of r k = py_dict (received_get (received (req_unit r)) k (JObj []))"

definition patterns_of :: "request \<Rightarrow> string \<Rightarrow> error + json list" where
  "patterns_of r k = py_list (py_or (received_getitem (received (req_unit r)) k) (JList []))"

definition flag_of :: "request \<Rightarrow> string \<Rightarrow> bool" where
  "flag_of r k = truthy (received_getitem (received (req_unit r)) k)"

definition instance_tags :: "request \<Rightarrow> error + (key \<times> json) list" where
  "instance_tags r = tags_of r ''instance-tags''"

definition instance_security_group_tags :: "request \<Rightarrow> error + (key \<times> json) list" where
  "instance_security_group_tags r = tags_of r ''instance-security-group-tags''"

definition instance_subnet_tags :: "request \<Rightarrow> error + (key \<times> json) list" where
  "instance_subnet_tags r = tags_of r ''instance-subnet-tags''"

definition object_storage_access_patterns :: "request \<Rightarrow> error + json list" where
  "object_storage_access_patterns r = patterns_of r ''object-storage-access-patterns''"

definition object_storage_management_patterns :: "request \<Rightarrow> error + json list" where
  "object_storage_management_patterns r = patterns_of r ''object-storage-management-patterns''"

definition requested_instance_inspection :: "request \<Rightarrow> bool" where
  "requested_instance_inspection r = flag_of r ''enable-instance-inspection''"

definition requested_acm_readonly :: "request \<Rightarrow> bool" where
  "requested_acm_readonly r = flag_of r ''enable-acm-readonly''"

definition requested_acm_fullaccess :: "request \<Rightarrow> bool" where
  "requested_acm_fullaccess r = flag_of r ''enable-acm-fullaccess''"

definition requested_network_management :: "request \<Rightarrow> bool" where
  "requested_network_management r = flag_of r ''enable-network-management''"

definition requested_load_balancer_management :: "request \<Rightarrow> bool" where
  "requested_load_balancer_management r = flag_of r ''enable-load-balancer-management''"

definition requested_block_storage_management :: "request \<Rightarrow> bool" where
  "requested_block_storage_management r = flag_of r ''enable-block-storage-management''"

definition requested_dns_management :: "request \<Rightarrow> bool" where
  "requested_dns_management r = flag_of r ''enable-dns-management''"

definition requested_object_storage_access :: "request \<Rightarrow> bool" where
  "requested_object_storage_access r = flag_of r ''enable-object-storage-access''"

definition requested_object_storage_management :: "request \<Rightarrow> bool" where
  "requested_object_storage_management r = flag_of r ''enable-object-storage-management''"

definition requested_ses_readonly :: "request \<Rightarrow> bool" where
  "requested_ses_readonly r = flag_of r ''enable-ses-readonly''"

definition requested_ses_fullaccess :: "request \<Rightarrow> bool" where
  "requested_ses_fullaccess r = flag_of r ''enable-ses-fullaccess''"

definition requested_sns_readonly :: "request \<Rightarrow> bool" where
  "requested_sns_readonly r = flag_of r ''enable-sns-readonly''"

definition requested_sns_fullaccess :: "request \<Rightarrow> bool" where
  "requested_sns_fullaccess r = flag_of r ''enable-sns-fullaccess''"

definition requested_mobiletargeting_readonly :: "request \<Rightarrow> bool" where
  "requested_mobiletargeting_readonly r = flag_of r ''enable-mobiletargeting-readonly''"

definition requested_mobiletargeting_fullaccess :: "request \<Rightarrow> bool" where
  "requested_mobiletargeting_fullaccess r = flag_of r ''enable-mobiletargeting-fullaccess''"

definition requested_sms_voice_readonly :: "request \<Rightarrow> bool" where
  "requested_sms_voice_readonly r = flag_of r ''enable-sms-voice-readonly''"

definition requested_sms_voice_fullaccess :: "request \<Rightarrow> bool" where
  "requested_sms_voice_fullaccess r = flag_of r ''enable-sms-voice-fullaccess''"

section \<open>AWSIntegrationProvides\<close>

record provides =
  endpoint_name :: string
  all_joined_units :: "remote_unit list"
  all_departed_units :: "remote_unit list"

definition all_requests :: "provides \<Rightarrow> request list" where
  "all_requests self = map IntegrationRequest (all_joined_units self)"

definition requests :: "provides \<Rightarrow> host \<Rightarrow> request list" where
  "requests self w = filter (\<lambda>r. changed r w) (all_requests self)"

text \<open>The loop of \<^verbatim>\<open>check_requests\<close>, with the local \<^verbatim>\<open>unfulfilled_requests\<close> as an
  accumulator. The two calls of \<^verbatim>\<open>hookenv.log\<close> write to the log only.\<close>

fun check_loop :: "request list \<Rightarrow> bool \<Rightarrow> host \<Rightarrow> error + (bool \<times> host)" where
  "check_loop [] unfulfilled w = Inr (unfulfilled, w)"
| "check_loop (r # rs) unfulfilled w =
     (if changed r w then check_loop rs True w
      else
        (case is_completed r w of
           Inl err \<Rightarrow> Inl err
         | Inr completed \<Rightarrow>
             if \<not> completed \<and> truthy (completed_for_instance r w) then
               (case mark_completed r w of
                  Inl err \<Rightarrow> Inl err
                | Inr w' \<Rightarrow> check_loop rs unfulfilled w')
             else check_loop rs unfulfilled w))"

definition check_requests :: "provides \<Rightarrow> host \<Rightarrow> error + host" where
  "check_requests self w =
     (case check_loop (all_requests self) False w of
        Inl err \<Rightarrow> Inl err
      | Inr (unfulfilled, w') \<Rightarrow>
          Inr (clear_flag (expand_name (endpoint_name self) ''changed'')
                (toggle_flag (expand_name (endpoint_name self) ''requested'') unfulfilled w')))"

definition cleanup :: "provides \<Rightarrow> host \<Rightarrow> provides \<times> host" where
  "cleanup self w =
     (let w' = foldl (\<lambda>acc u. clear (IntegrationRequest u) acc) w (all_departed_units self)
      in (self\<lparr>all_departed_units := []\<rparr>,
          clear_flag (expand_name (endpoint_name self) ''departed'') w'))"

section \<open>A scenario\<close>

text \<open>Participant P1 sends \<^verbatim>\<open>{requested: true, instance-id: "i-1", region: "us-east-1",
  enable-dns-management: true}\<close> on relation \<^verbatim>\<open>aws:1\<close> of the endpoint \<^verbatim>\<open>aws\<close>; the
  store, the outgoing data and the flags start empty.\<close>

definition P1_received :: "(string \<times> json) list" where
  "P1_received =
     [(''requested'', JBool True), (''instance-id'', JStr ''i-1''),
      (''region'', JStr ''us-east-1''), (''enable-dns-management'', JBool True)]"

definition P1 :: remote_unit where
  "P1 = \<lparr>unit_name = ''client/0'', application_name = ''client'',
          relation = \<lparr>relation_id = ''aws:1'', endpoint = ''aws''\<rparr>,
          received = P1_received\<rparr>"

definition host0 :: host where
  "host0 = \<lparr>kv = Map.empty, to_publish = (\<lambda>rel. Map.empty), flags = {}\<rparr>"

text \<open>The same participant after a restart that lost the publication: the store holds
  the acknowledgement of its current hash, the completion map was not published, and the
  flags \<^verbatim>\<open>changed\<close> and \<^verbatim>\<open>requested\<close> are set.\<close>

definition host1 :: host where
  "host1 =
     \<lparr>kv = [hash_key (IntegrationRequest P1) \<mapsto> JStr (hash (IntegrationRequest P1))],
      to_publish = (\<lambda>rel. Map.empty),
      flags = {''endpoint.aws.changed'', ''endpoint.aws.requested''}\<rparr>"

text \<open>A second participant on the same relation, on another instance.\<close>

definition P2 :: remote_unit where
  "P2 = \<lparr>unit_name = ''client/1'', application_name = ''client'',
          relation = \<lparr>relation_id = ''aws:1'', endpoint = ''aws''\<rparr>,
          received = [(''requested'', JBool True), (''instance-id'', JStr ''i-2'')]\<rparr>"

definition aws :: provides where
  "aws = \<lparr>endpoint_name = ''aws'', all_joined_units = [P1], all_departed_units = []\<rparr>"


section \<open>Received values of the declared types\<close>

text \<open>The interface declares the tags as mappings and the patterns as lists, where a
  patterns key may also hold \<^verbatim>\<open>null\<close>. A key may be absent.\<close>

definition tags_typed :: "(string \<times> json) list \<Rightarrow> string \<Rightarrow> bool" where
  "tags_typed d k =
     (case map_of d k of None \<Rightarrow> True | Some (JObj kvs) \<Rightarrow> True | Some v \<Rightarrow> False)"

definition patterns_typed :: "(string \<times> json) list \<Rightarrow> string \<Rightarrow> bool" where
  "patterns_typed d k =
     (case map_of d k of
        None \<Rightarrow> True | Some JNull \<Rightarrow> True | Some (JList xs) \<Rightarrow> True | Some v \<Rightarrow> False)"

text \<open>The values that are neither text nor containers: \<^verbatim>\<open>null\<close>, the booleans and the
  numbers. Python cannot iterate over them.\<close>

fun scalar :: "json \<Rightarrow> bool" where
  "scalar JNull = True"
| "scalar (JBool b) = True"
| "scalar (JInt i) = True"
| "scalar v = False"

section \<open>Objects: what an accessor hands out\<close>

text \<open>
  The dictionaries and lists of Python are mutable objects, and a caller may change what
  an accessor returns. To tell a copy from the received object itself, objects live in a
  heap, a list of cells addressed by position: a cell holds a received (decoded) value, or
  a dictionary or a list built by \<^verbatim>\<open>dict(...)\<close>, \<^verbatim>\<open>list(...)\<close> or a literal. The received
  data of a unit is then a list of keys with the addresses of their values. The
  constructors \<^verbatim>\<open>dict\<close> and \<^verbatim>\<open>list\<close> put their result in a new cell; the copy is shallow,
  and the values inside a cell are held by value.
\<close>

datatype pyobj = Decoded json | DictObj "(key \<times> json) list" | ListObj "json list"

type_synonym heap = "pyobj list"

definition alloc :: "heap \<Rightarrow> pyobj \<Rightarrow> nat \<times> heap" where
  "alloc h obj = (length h, h @ [obj])"

fun truthy_obj :: "pyobj \<Rightarrow> bool" where
  "truthy_obj (Decoded v) = truthy v"
| "truthy_obj (DictObj d) = (d \<noteq> [])"
| "truthy_obj (ListObj xs) = (xs \<noteq> [])"

fun key_json :: "key \<Rightarrow> json" where
  "key_json KNone = JNull"
| "key_json (KInt i) = JInt i"
| "key_json (KStr s) = JStr s"

fun dict_of_obj :: "pyobj \<Rightarrow> error + (key \<times> json) list" where
  "dict_of_obj (Decoded v) = py_dict v"
| "dict_of_obj (DictObj d) = Inr d"
| "dict_of_obj (ListObj xs) = dict_update_seq [] xs"

fun list_of_obj :: "pyobj \<Rightarrow> error + json list" where
  "list_of_obj (Decoded v) = py_list v"
| "list_of_obj (DictObj d) = Inr (map (\<lambda>kv. key_json (fst kv)) d)"
| "list_of_obj (ListObj xs) = Inr xs"

text \<open>\<^verbatim>\<open>dict(received.get(k, {}))\<close>: the literal is a new empty dictionary, the lookup
  gives the received object or that literal, and \<^verbatim>\<open>dict\<close> builds a new dictionary from
  it. The result is the address of the new dictionary and the heap that holds it.\<close>

definition tags_h :: "string \<Rightarrow> heap \<Rightarrow> (string \<times> nat) list \<Rightarrow> error + nat \<times> heap" where
  "tags_h k h refs =
     (let (a0, h0) = alloc h (DictObj []);
          a = (case map_of refs k of None \<Rightarrow> a0 | Some a' \<Rightarrow> a')
      in case dict_of_obj (h0 ! a) of
           Inl err \<Rightarrow> Inl err
         | Inr d \<Rightarrow> Inr (alloc h0 (DictObj d)))"

text \<open>\<^verbatim>\<open>list(received[k] or [])\<close>: the subscript gives the received object or \<^verbatim>\<open>None\<close>;
  when that is falsy the literal is a new empty list; \<^verbatim>\<open>list\<close> builds a new list.\<close>

definition patterns_h :: "string \<Rightarrow> heap \<Rightarrow> (string \<times> nat) list \<Rightarrow> error + nat \<times> heap" where
  "patterns_h k h refs =
     (let (a, h0) =
            (case map_of refs k of
               None \<Rightarrow> alloc h (ListObj [])
             | Some a' \<Rightarrow> if truthy_obj (h ! a') then (a', h) else alloc h (ListObj []))
      in case list_of_obj (h0 ! a) of
           Inl err \<Rightarrow> Inl err
         | Inr xs \<Rightarrow> Inr (alloc h0 (ListObj xs)))"

definition instance_tags_h :: "heap \<Rightarrow> (string \<times> nat) list \<Rightarrow> error + nat \<times> heap" where
  "instance_tags_h = tags_h ''instance-tags''"

definition instance_security_group_tags_h ::
    "heap \<Rightarrow> (string \<times> nat) list \<Rightarrow> error + nat \<times> heap" where
  "instance_security_group_tags_h = tags_h ''instance-security-group-tags''"

definition instance_subnet_tags_h :: "heap \<Rightarrow> (string \<times> nat) list \<Rightarrow> error + nat \<times> heap" where
  "instance_subnet_tags_h = tags_h ''instance-subnet-tags''"

definition object_storage_access_patterns_h ::
    "heap \<Rightarrow> (string \<times> nat) list \<Rightarrow> error + nat \<times> heap" where
  "object_storage_access_patterns_h = patterns_h ''object-storage-access-patterns''"

definition object_storage_management_patterns_h ::
    "heap \<Rightarrow> (string \<times> nat) list \<Rightarrow> error + nat \<times> heap" where
  "object_storage_management_patterns_h = patterns_h ''object-storage-management-patterns''"

definition copying_accessors :: "(heap \<Rightarrow> (string \<times> nat) list \<Rightarrow> error + nat \<times> heap) list" where
  "copying_accessors =
     [instance_tags_h, instance_security_group_tags_h, instance_subnet_tags_h,
      object_storage_access_patterns_h, object_storage_management_patterns_h]"

text \<open>The object an accessor returned, or the exception it raised.\<close>

fun result_of :: "error + nat \<times> heap \<Rightarrow> error + pyobj" where
  "result_of (Inl err) = Inl err"
| "result_of (Inr (a, h)) = Inr (h ! a)"

text \<open>The received data of a unit lives in the heap when every address is one of a cell
  that holds a decoded value. \<^verbatim>\<open>load\<close> reads the data of the unit out of the heap.\<close>

fun is_decoded :: "pyobj \<Rightarrow> bool" where
  "is_decoded (Decoded v) = True"
| "is_decoded (DictObj d) = False"
| "is_decoded (ListObj xs) = False"

definition received_ok :: "heap \<Rightarrow> (string \<times> nat) list \<Rightarrow> bool" where
  "received_ok h refs = list_all (\<lambda>ka. snd ka < length h \<and> is_decoded (h ! snd ka)) refs"

definition json_at :: "heap \<Rightarrow> nat \<Rightarrow> json" where
  "json_at h a = (case h ! a of Decoded v \<Rightarrow> v | _ \<Rightarrow> JNull)"

definition load :: "heap \<Rightarrow> remote_unit \<Rightarrow> (string \<times> nat) list \<Rightarrow> remote_unit" where
  "load h u refs = u\<lparr>received := map (\<lambda>ka. (fst ka, json_at h (snd ka))) refs\<rparr>"

text \<open>A heap with the tags of an instance, and the received data that refers to them.\<close>

definition heap0 :: heap where
  "heap0 = [Decoded (JObj [(''team'', JStr ''blue'')]), Decoded (JBool True)]"

definition refs0 :: "(string \<times> nat) list" where
  "refs0 = [(''instance-tags'', 0), (''requested'', 1)]"

section \<open>Properties\<close>

subsection \<open>Auxiliary facts\<close>

lemma truthy_py_and: "truthy (py_and a b) \<longleftrightarrow> truthy a \<and> truthy b"
  by (simp add: py_and_def)

lemma kv_get_eq_JStr: "kv_get w k = JStr h \<longleftrightarrow> kv w k = Some (JStr h)"
  by (simp add: kv_get_def split: option.splits)

lemma truthy_present: "truthy (received_getitem d k) \<Longrightarrow> map_of d k \<noteq> None"
  by (auto simp: received_getitem_def split: option.splits)

lemma changed_eq:
  "changed r w \<longleftrightarrow>
     truthy (instance_id r) \<and> truthy (requested r) \<and> kv w (hash_key r) \<noteq> Some (JStr (hash r))"
  by (auto simp: changed_def truthy_py_and kv_get_eq_JStr)

subsection \<open>When a request counts as changed\<close>

text \<open>C1. A request is \<^verbatim>\<open>changed\<close> exactly when \<^verbatim>\<open>instance-id\<close> and \<^verbatim>\<open>requested\<close> are
  both present and truthy in the received data and the hash persisted under the key of
  this instance is missing or is not the current hash of the request. In particular it is
  not \<^verbatim>\<open>changed\<close> when \<^verbatim>\<open>instance-id\<close> or \<^verbatim>\<open>requested\<close> is absent or falsy, whatever
  else was received and whatever the store holds.\<close>

theorem changed_iff_requested_and_unacknowledged:
  "(changed r w \<longleftrightarrow>
      (map_of (received (req_unit r)) ''instance-id'' \<noteq> None \<and> truthy (instance_id r)) \<and>
      (map_of (received (req_unit r)) ''requested'' \<noteq> None \<and> truthy (requested r)) \<and>
      (kv w (hash_key r) = None \<or> kv w (hash_key r) \<noteq> Some (JStr (hash r))))
   \<and> (map_of (received (req_unit r)) ''instance-id'' = None \<or> \<not> truthy (instance_id r) \<or>
       map_of (received (req_unit r)) ''requested'' = None \<or> \<not> truthy (requested r)
       \<longrightarrow> \<not> changed r w)"
proof -
  have "truthy (instance_id r) \<Longrightarrow> map_of (received (req_unit r)) ''instance-id'' \<noteq> None"
    unfolding instance_id_def by (rule truthy_present)
  moreover have "truthy (requested r) \<Longrightarrow> map_of (received (req_unit r)) ''requested'' \<noteq> None"
    unfolding requested_def by (rule truthy_present)
  ultimately show ?thesis
    using changed_eq [of r w] by auto
qed

theorem changed_iff_requested_and_unacknowledged_witness:
  "changed (IntegrationRequest P1) host0 \<and>
   \<not> changed (IntegrationRequest (P1\<lparr>received := [(''instance-id'', JStr ''i-1'')]\<rparr>)) host0 \<and>
   \<not> changed
       (IntegrationRequest
          (P1\<lparr>received := [(''instance-id'', JStr ''''), (''requested'', JBool True)]\<rparr>))
       host0"
  using
    changed_iff_requested_and_unacknowledged [of "IntegrationRequest P1" host0]
    changed_iff_requested_and_unacknowledged
      [of "IntegrationRequest (P1\<lparr>received := [(''instance-id'', JStr ''i-1'')]\<rparr>)" host0]
    changed_iff_requested_and_unacknowledged
      [of "IntegrationRequest
            (P1\<lparr>received := [(''instance-id'', JStr ''''), (''requested'', JBool True)]\<rparr>)"
          host0]
  by (simp add: IntegrationRequest_def P1_def P1_received_def host0_def instance_id_def
      requested_def received_getitem_def)

text \<open>C9. No request is \<^verbatim>\<open>changed\<close> and \<^verbatim>\<open>completed_for_instance\<close> at once, in any
  state of the store: the first needs the persisted hash to be missing or different from
  the current hash, the second needs it to be the current hash.\<close>

theorem changed_excludes_completed_for_instance:
  "\<not> (changed r w \<and> truthy (completed_for_instance r w))"
  by (auto simp: changed_def completed_for_instance_def truthy_py_and Let_def)

theorem changed_excludes_completed_for_instance_witness:
  "changed (IntegrationRequest P1) host0 \<and>
   \<not> truthy (completed_for_instance (IntegrationRequest P1) host0)"
  using changed_excludes_completed_for_instance [of "IntegrationRequest P1" host0]
  by (simp add: IntegrationRequest_def P1_def P1_received_def host0_def instance_id_def
      requested_def received_getitem_def changed_def truthy_py_and kv_get_def)

subsection \<open>The store, the outgoing data and the flags\<close>

lemma kv_publish_set [simp]: "kv (publish_set rel k m w) = kv w"
  by (simp add: publish_set_def)

lemma flags_publish_set [simp]: "flags (publish_set rel k m w) = flags w"
  by (simp add: publish_set_def)

lemma kv_kv_set [simp]: "kv (kv_set k v w) = (kv w)(k \<mapsto> v)"
  by (simp add: kv_set_def)

lemma flags_kv_set [simp]: "flags (kv_set k v w) = flags w"
  by (simp add: kv_set_def)

lemma to_publish_kv_set [simp]: "to_publish (kv_set k v w) = to_publish w"
  by (simp add: kv_set_def)

lemma publish_get_kv_set [simp]: "publish_get (kv_set k v w) = publish_get w"
  by (simp add: publish_get_def fun_eq_iff)

lemma publish_get_publish_set:
  "publish_get (publish_set rel k m w) rel' k' d =
     (if rel' = rel \<and> k' = k then m else publish_get w rel' k' d)"
  by (simp add: publish_get_def publish_set_def)

lemma publish_set_twice [simp]:
  "publish_set rel k m (publish_set rel k m' w) = publish_set rel k m w"
  by (simp add: publish_set_def)

lemma kv_set_twice [simp]: "kv_set k v (kv_set k v' w) = kv_set k v w"
  by (simp add: kv_set_def)

lemma kv_set_publish_set:
  "kv_set k v (publish_set rel c m w) = publish_set rel c m (kv_set k v w)"
  by (simp add: kv_set_def publish_set_def)

lemma kv_clear_flag [simp]: "kv (clear_flag f w) = kv w"
  by (simp add: clear_flag_def)

lemma to_publish_clear_flag [simp]: "to_publish (clear_flag f w) = to_publish w"
  by (simp add: clear_flag_def)

lemma flags_clear_flag [simp]: "flags (clear_flag f w) = flags w - {f}"
  by (simp add: clear_flag_def)

lemma to_publish_toggle_flag [simp]: "to_publish (toggle_flag f b w) = to_publish w"
  by (simp add: toggle_flag_def)

lemma kv_toggle_flag [simp]: "kv (toggle_flag f b w) = kv w"
  by (simp add: toggle_flag_def)

subsection \<open>Dictionary keys\<close>

lemma hashable_py_key: "hashable v \<Longrightarrow> \<exists>k. py_key v = Inr k"
  by (cases v) auto

lemma py_key_KStr: "py_key v = Inr (KStr s) \<Longrightarrow> v = JStr s"
  by (cases v) (auto split: if_splits)

lemma instance_id_P1: "instance_id (IntegrationRequest P1) = JStr ''i-1''"
  by (simp add: IntegrationRequest_def P1_def P1_received_def instance_id_def
      received_getitem_def)

lemma requested_P1: "requested (IntegrationRequest P1) = JBool True"
  by (simp add: IntegrationRequest_def P1_def P1_received_def requested_def
      received_getitem_def)

lemma instance_id_P2: "instance_id (IntegrationRequest P2) = JStr ''i-2''"
  by (simp add: IntegrationRequest_def P2_def instance_id_def received_getitem_def)

subsection \<open>Marking a request completed\<close>

lemma mark_completed_Inr:
  "py_key (instance_id r) = Inr k \<Longrightarrow>
   mark_completed r w =
     Inr (publish_set (relation (req_unit r)) ''completed''
            ((publish_get w (relation (req_unit r)) ''completed'' Map.empty)(k \<mapsto> JStr (hash r)))
            (kv_set (hash_key r) (JStr (hash r)) w))"
  by (simp add: mark_completed_def Let_def)

lemma is_completed_Inr:
  "py_key (instance_id r) = Inr k \<Longrightarrow>
   is_completed r w =
     Inr (publish_get w (relation (req_unit r)) ''completed'' Map.empty k = Some (JStr (hash r)))"
  by (simp add: is_completed_def Let_def)

lemma mark_completed_returns:
  "mark_completed r w = Inr w1 \<Longrightarrow> \<exists>k. py_key (instance_id r) = Inr k"
  by (auto simp: mark_completed_def Let_def split: sum.splits)

text \<open>C3. Whenever \<^verbatim>\<open>mark_completed\<close> returns, it has written the current hash into the
  store under the key of the instance and into the published \<^verbatim>\<open>completed\<close> map under the
  instance id; the request then is not \<^verbatim>\<open>changed\<close> and \<^verbatim>\<open>is_completed\<close>, and a second
  call on the same data returns the very same state of store, outgoing data and flags.
  It returns when the instance id can be a dictionary key: when it is absent, or a JSON
  string (as the interface declares it), number or boolean.\<close>

theorem mark_completed_idempotent:
  "(\<forall>w1. mark_completed r w = Inr w1 \<longrightarrow>
      (\<exists>k. py_key (instance_id r) = Inr k \<and>
           publish_get w1 (relation (req_unit r)) ''completed'' Map.empty k =
             Some (JStr (hash r))) \<and>
      kv w1 (hash_key r) = Some (JStr (hash r)) \<and>
      \<not> changed r w1 \<and> is_completed r w1 = Inr True \<and>
      mark_completed r w1 = Inr w1) \<and>
   (hashable (instance_id r) \<longrightarrow> (\<exists>w1. mark_completed r w = Inr w1))"
proof -
  have effect: "(\<exists>k. py_key (instance_id r) = Inr k \<and>
           publish_get w1 (relation (req_unit r)) ''completed'' Map.empty k =
             Some (JStr (hash r))) \<and>
      kv w1 (hash_key r) = Some (JStr (hash r)) \<and>
      \<not> changed r w1 \<and> is_completed r w1 = Inr True \<and>
      mark_completed r w1 = Inr w1"
    if m: "mark_completed r w = Inr w1" for w1
  proof -
    from mark_completed_returns [OF m] obtain k where k: "py_key (instance_id r) = Inr k" ..
    let ?rel = "relation (req_unit r)"
    let ?m = "(publish_get w ?rel ''completed'' Map.empty)(k \<mapsto> JStr (hash r))"
    from m have w1: "w1 = publish_set ?rel ''completed'' ?m (kv_set (hash_key r) (JStr (hash r)) w)"
      unfolding mark_completed_Inr [OF k] by simp
    have kv1: "kv w1 (hash_key r) = Some (JStr (hash r))"
      by (simp add: w1)
    have pg: "publish_get w1 ?rel ''completed'' Map.empty = ?m"
      by (simp add: w1 publish_get_publish_set)
    have pub1: "publish_get w1 ?rel ''completed'' Map.empty k = Some (JStr (hash r))"
      by (simp add: pg)
    have ch: "\<not> changed r w1"
      using kv1 by (simp add: changed_eq)
    have ic: "is_completed r w1 = Inr True"
      by (simp add: is_completed_Inr [OF k] pub1)
    have "mark_completed r w1 =
            Inr (publish_set ?rel ''completed'' (?m(k \<mapsto> JStr (hash r)))
                  (kv_set (hash_key r) (JStr (hash r)) w1))"
      unfolding mark_completed_Inr [OF k] pg ..
    also have "?m(k \<mapsto> JStr (hash r)) = ?m"
      by simp
    also have "kv_set (hash_key r) (JStr (hash r)) w1 = w1"
      by (simp add: w1 kv_set_publish_set)
    also have "publish_set ?rel ''completed'' ?m w1 = w1"
      by (simp add: w1)
    finally have m2: "mark_completed r w1 = Inr w1" .
    show ?thesis
      using k kv1 pub1 ch ic m2 by blast
  qed
  have "\<exists>w1. mark_completed r w = Inr w1" if "hashable (instance_id r)"
    using hashable_py_key [OF that] mark_completed_Inr [of r _ w] by blast
  with effect show ?thesis
    by blast
qed

theorem mark_completed_idempotent_witness:
  "\<exists>w1. mark_completed (IntegrationRequest P1) host0 = Inr w1 \<and>
      kv w1 (hash_key (IntegrationRequest P1)) = Some (JStr (hash (IntegrationRequest P1))) \<and>
      \<not> changed (IntegrationRequest P1) w1 \<and>
      is_completed (IntegrationRequest P1) w1 = Inr True \<and>
      mark_completed (IntegrationRequest P1) w1 = Inr w1"
proof -
  have "hashable (instance_id (IntegrationRequest P1))"
    by (simp add: instance_id_P1)
  with mark_completed_idempotent [of "IntegrationRequest P1" host0] show ?thesis
    by blast
qed

subsection \<open>Departure\<close>

lemma kv_clear: "kv (clear r w) = (kv w)(hash_key r := None)"
  by (simp add: clear_def kv_unset_def)

lemma to_publish_clear: "to_publish (clear r w) = to_publish w"
  by (simp add: clear_def kv_unset_def)

lemma foldl_clear_to_publish:
  "to_publish (foldl (\<lambda>acc u. clear (IntegrationRequest u) acc) w us) = to_publish w"
  by (induction us arbitrary: w) (simp_all add: to_publish_clear)

lemma foldl_clear_kv:
  "kv (foldl (\<lambda>acc u. clear (IntegrationRequest u) acc) w us) k =
     (if k \<in> hash_key ` IntegrationRequest ` set us then None else kv w k)"
  by (induction us arbitrary: w) (auto simp: kv_clear)

lemma hash_key_same:
  "received u' = received u \<Longrightarrow> endpoint (relation u') = endpoint (relation u) \<Longrightarrow>
   hash_key (IntegrationRequest u') = hash_key (IntegrationRequest u)"
  by (simp add: hash_key_def instance_id_def IntegrationRequest_def)

text \<open>C6. \<^verbatim>\<open>cleanup\<close> builds the request of every departed unit and removes the entry
  persisted under the key of its instance; it empties the list of departed units and
  clears the flag \<^verbatim>\<open>departed\<close>. Afterwards a request of the same endpoint with the same
  received data, whose \<^verbatim>\<open>instance-id\<close> and \<^verbatim>\<open>requested\<close> are truthy, is \<^verbatim>\<open>changed\<close>.\<close>

theorem cleanup_forgets_departed:
  assumes "u \<in> set (all_departed_units self)"
  shows "kv (snd (cleanup self w)) (hash_key (IntegrationRequest u)) = None \<and>
         all_departed_units (fst (cleanup self w)) = [] \<and>
         expand_name (endpoint_name self) ''departed'' \<notin> flags (snd (cleanup self w)) \<and>
         (\<forall>u'. received u' = received u \<and> endpoint (relation u') = endpoint (relation u) \<and>
               truthy (instance_id (IntegrationRequest u')) \<and>
               truthy (requested (IntegrationRequest u'))
               \<longrightarrow> changed (IntegrationRequest u') (snd (cleanup self w)))"
proof -
  let ?w' = "snd (cleanup self w)"
  have gone: "kv ?w' (hash_key (IntegrationRequest u)) = None"
    using assms by (simp add: cleanup_def Let_def foldl_clear_kv)
  have "changed (IntegrationRequest u') ?w'"
    if "received u' = received u" "endpoint (relation u') = endpoint (relation u)"
       "truthy (instance_id (IntegrationRequest u'))" "truthy (requested (IntegrationRequest u'))"
    for u'
    using that gone hash_key_same [of u' u] by (simp add: changed_eq)
  then show ?thesis
    using gone by (simp add: cleanup_def Let_def)
qed

theorem cleanup_forgets_departed_witness:
  "\<not> changed (IntegrationRequest P1) host1 \<and>
   changed (IntegrationRequest P1) (snd (cleanup (aws\<lparr>all_departed_units := [P1]\<rparr>) host1))"
proof -
  have 1: "\<not> changed (IntegrationRequest P1) host1"
    by (simp add: changed_eq host1_def)
  have "P1 \<in> set (all_departed_units (aws\<lparr>all_departed_units := [P1]\<rparr>))"
    by simp
  from cleanup_forgets_departed [OF this, of host1]
  have "received P1 = received P1 \<and> endpoint (relation P1) = endpoint (relation P1) \<and>
          truthy (instance_id (IntegrationRequest P1)) \<and>
          truthy (requested (IntegrationRequest P1))
        \<longrightarrow> changed (IntegrationRequest P1)
              (snd (cleanup (aws\<lparr>all_departed_units := [P1]\<rparr>) host1))"
    by blast
  then show ?thesis
    using 1 by (simp add: instance_id_P1 requested_P1)
qed

text \<open>C10. \<^verbatim>\<open>clear\<close>, and with it \<^verbatim>\<open>cleanup\<close>, leaves the outgoing relation data as it
  is: the hash published for a departed instance stays in the \<^verbatim>\<open>completed\<close> map. When
  \<^verbatim>\<open>mark_completed\<close> returns, the entry of every other instance in every \<^verbatim>\<open>completed\<close>
  map, and every other key of the outgoing data, is what it was.\<close>

theorem clear_keeps_published_map:
  "to_publish (clear r w) = to_publish w \<and>
   to_publish (snd (cleanup self w)) = to_publish w \<and>
   (\<forall>k. py_key (instance_id r) = Inr k \<longrightarrow>
     (\<exists>w'. mark_completed r w = Inr w' \<and>
        (\<forall>rel' k'. (rel', k') \<noteq> (relation (req_unit r), k) \<longrightarrow>
           publish_get w' rel' ''completed'' Map.empty k' =
           publish_get w rel' ''completed'' Map.empty k') \<and>
        (\<forall>rel' c. (rel', c) \<noteq> (relation (req_unit r), ''completed'') \<longrightarrow>
           to_publish w' rel' c = to_publish w rel' c)))"
proof -
  have a: "to_publish (clear r w) = to_publish w"
    by (rule to_publish_clear)
  have b: "to_publish (snd (cleanup self w)) = to_publish w"
    by (simp add: cleanup_def Let_def foldl_clear_to_publish)
  have c: "\<exists>w'. mark_completed r w = Inr w' \<and>
        (\<forall>rel' k'. (rel', k') \<noteq> (relation (req_unit r), k) \<longrightarrow>
           publish_get w' rel' ''completed'' Map.empty k' =
           publish_get w rel' ''completed'' Map.empty k') \<and>
        (\<forall>rel' c. (rel', c) \<noteq> (relation (req_unit r), ''completed'') \<longrightarrow>
           to_publish w' rel' c = to_publish w rel' c)"
    if k: "py_key (instance_id r) = Inr k" for k
    unfolding mark_completed_Inr [OF k]
    by (auto simp: publish_get_publish_set) (auto simp: publish_set_def kv_set_def)
  show ?thesis
    using a b c by blast
qed

lemma relation_P1: "relation (req_unit (IntegrationRequest P1)) = relation P1"
  by (simp add: IntegrationRequest_def)

lemma relation_P2: "relation (req_unit (IntegrationRequest P2)) = relation P1"
  by (simp add: IntegrationRequest_def P1_def P2_def)

theorem clear_keeps_published_map_witness:
  "\<exists>w1 w2. mark_completed (IntegrationRequest P1) host0 = Inr w1 \<and>
     mark_completed (IntegrationRequest P2) w1 = Inr w2 \<and>
     publish_get w2 (relation P1) ''completed'' Map.empty (KStr ''i-1'') =
       Some (JStr (hash (IntegrationRequest P1))) \<and>
     publish_get (snd (cleanup (aws\<lparr>all_departed_units := [P1]\<rparr>) w2)) (relation P1)
         ''completed'' Map.empty (KStr ''i-1'') =
       Some (JStr (hash (IntegrationRequest P1)))"
proof -
  let ?R1 = "IntegrationRequest P1" and ?R2 = "IntegrationRequest P2"
  have k1: "py_key (instance_id ?R1) = Inr (KStr ''i-1'')"
    by (simp add: instance_id_P1)
  have k2: "py_key (instance_id ?R2) = Inr (KStr ''i-2'')"
    by (simp add: instance_id_P2)
  let ?w1 = "publish_set (relation P1) ''completed''
               ((publish_get host0 (relation P1) ''completed'' Map.empty)
                  (KStr ''i-1'' \<mapsto> JStr (hash ?R1)))
               (kv_set (hash_key ?R1) (JStr (hash ?R1)) host0)"
  have m1: "mark_completed ?R1 host0 = Inr ?w1"
    using mark_completed_Inr [OF k1, of host0] by (simp add: relation_P1)
  have p1: "publish_get ?w1 (relation P1) ''completed'' Map.empty (KStr ''i-1'') =
              Some (JStr (hash ?R1))"
    by (simp add: publish_get_publish_set)
  from clear_keeps_published_map [of ?R2 ?w1] k2 obtain w2 where
    m2: "mark_completed ?R2 ?w1 = Inr w2" and
    frame: "\<forall>rel' k'. (rel', k') \<noteq> (relation (req_unit ?R2), KStr ''i-2'') \<longrightarrow>
              publish_get w2 rel' ''completed'' Map.empty k' =
              publish_get ?w1 rel' ''completed'' Map.empty k'"
    by blast
  from frame have p2: "publish_get w2 (relation P1) ''completed'' Map.empty (KStr ''i-1'') =
              Some (JStr (hash ?R1))"
    using p1 by simp
  from clear_keeps_published_map [of ?R1 w2 "aws\<lparr>all_departed_units := [P1]\<rparr>"]
  have "to_publish (snd (cleanup (aws\<lparr>all_departed_units := [P1]\<rparr>) w2)) = to_publish w2"
    by blast
  then have "publish_get (snd (cleanup (aws\<lparr>all_departed_units := [P1]\<rparr>) w2)) (relation P1)
               ''completed'' Map.empty (KStr ''i-1'') = Some (JStr (hash ?R1))"
    using p2 by (simp add: publish_get_def)
  with m1 m2 p2 show ?thesis
    by blast
qed

subsection \<open>The hash of a request\<close>

lemma sort_key_fst_perm:
  assumes "distinct (map fst d)" and "mset d' = mset d"
  shows "sort_key fst d' = sort_key fst d"
proof (rule sort_key_inj_key_eq)
  show "mset d' = mset (sort_key fst d)"
    using assms(2) by simp
  have "mset (map fst d') = mset (map fst d)"
    using assms(2) by simp
  then have "distinct (map fst d')"
    using assms(1) mset_eq_imp_distinct_iff by blast
  then show "inj_on fst (set d')"
    by (simp add: distinct_map)
  show "sorted (map fst (sort_key fst d))"
    by simp
qed

lemma json_dumps_perm:
  assumes "distinct (map fst d)" and "mset d' = mset d"
  shows "json_dumps (JObj d') = json_dumps (JObj d)"
  by (simp add: sort_key_fst_perm [OF assms])

lemma length_hex32: "length (hex32 w) = 8"
  by (simp add: hex32_def)

lemma hexdigit_in: "hexdigit n \<in> set hexdigits"
proof -
  have "n mod 16 < length hexdigits"
    by (simp add: hexdigits_def)
  then show ?thesis
    unfolding hexdigit_def by (rule nth_mem)
qed

lemma hex32_chars: "c \<in> set (hex32 w) \<Longrightarrow> c \<in> set hexdigits"
  unfolding hex32_def using hexdigit_in by auto

lemma length_sha_hex: "length (sha_hex st) = 64"
  by (cases st rule: sha_hex.cases) (simp add: length_hex32)

lemma sha_hex_chars: "c \<in> set (sha_hex st) \<Longrightarrow> c \<in> set hexdigits"
  by (cases st rule: sha_hex.cases) (auto dest: hex32_chars)

lemma length_request_hash: "length (request_hash d) = 64"
  by (simp add: request_hash_def sha256_hexdigest_def length_sha_hex)

lemma hash_IntegrationRequest_nonempty: "hash (IntegrationRequest u) \<noteq> []"
  using length_request_hash [of "received u"] by (auto simp: IntegrationRequest_def)

text \<open>The model of SHA-256 on the test vector \<^verbatim>\<open>abc\<close> of the standard, and the JSON
  encoder on the data of the scenario.\<close>

lemma sha256_abc:
  "sha256_hexdigest (encode_utf8 ''abc'') =
     ''ba7816bf8f01cfea414140de5dae2223b00361a396177a9cb410ff61f20015ad''"
  by code_simp

lemma json_dumps_P1:
  "json_dumps (JObj P1_received) =
     [CHR ''{'', CHR 0x22] @ ''enable-dns-management'' @ [CHR 0x22] @ '': true, ''
       @ [CHR 0x22] @ ''instance-id'' @ [CHR 0x22] @ '': '' @ [CHR 0x22] @ ''i-1'' @ [CHR 0x22]
       @ '', '' @ [CHR 0x22] @ ''region'' @ [CHR 0x22] @ '': '' @ [CHR 0x22] @ ''us-east-1''
       @ [CHR 0x22] @ '', '' @ [CHR 0x22] @ ''requested'' @ [CHR 0x22] @ '': true}''"
  by code_simp

text \<open>C4. The hash of a request does not depend on the order of the keys of the received
  data: two lists of items with distinct keys that are permutations of each other have the
  same hash. The hash is a string of 64 hexadecimal digits, and the constructor computes
  it from the whole received mapping and nothing else.\<close>

theorem request_hash_order_independent_hex64:
  "(distinct (map fst d) \<and> mset d' = mset d \<longrightarrow> request_hash d' = request_hash d) \<and>
   length (request_hash d) = 64 \<and>
   (\<forall>c\<in>set (request_hash d). c \<in> set ''0123456789abcdef'') \<and>
   hash (IntegrationRequest u) = request_hash (received u)"
proof -
  have "request_hash d' = request_hash d" if "distinct (map fst d)" "mset d' = mset d"
    unfolding request_hash_def using json_dumps_perm [OF that] by simp
  moreover have "\<forall>c\<in>set (request_hash d). c \<in> set hexdigits"
    unfolding request_hash_def sha256_hexdigest_def using sha_hex_chars by blast
  then have "\<forall>c\<in>set (request_hash d). c \<in> set ''0123456789abcdef''"
    unfolding hexdigits_def .
  moreover have "hash (IntegrationRequest u) = request_hash (received u)"
    by (simp add: IntegrationRequest_def)
  ultimately show ?thesis
    using length_request_hash [of d] by blast
qed

theorem request_hash_order_independent_hex64_witness:
  "request_hash [(''instance-id'', JStr ''i-1''), (''requested'', JBool True)] =
   request_hash [(''requested'', JBool True), (''instance-id'', JStr ''i-1'')]"
  using request_hash_order_independent_hex64
    [of "[(''requested'', JBool True), (''instance-id'', JStr ''i-1'')]"
        "[(''instance-id'', JStr ''i-1''), (''requested'', JBool True)]"]
  by simp

subsection \<open>The pass over all requests\<close>

lemma cfi_iff:
  "truthy (completed_for_instance r w) \<longleftrightarrow>
     truthy (instance_id r) \<and> truthy (requested r) \<and>
     kv w (hash_key r) = Some (JStr (hash r)) \<and> hash r \<noteq> []"
  by (auto simp: completed_for_instance_def Let_def truthy_py_and kv_get_def
      split: option.splits)

lemma changed_kv_cong: "kv w' = kv w \<Longrightarrow> changed r w' = changed r w"
  by (simp add: changed_eq)

lemma cfi_kv_cong:
  "kv w' = kv w \<Longrightarrow> truthy (completed_for_instance r w') = truthy (completed_for_instance r w)"
  by (simp add: cfi_iff)

lemma is_completed_to_publish_cong:
  "to_publish w' = to_publish w \<Longrightarrow> is_completed r w' = is_completed r w"
  by (simp add: is_completed_def publish_get_def)

text \<open>Marking a request whose acknowledgement is already persisted leaves the store and
  the flags as they are.\<close>

lemma mark_completed_acknowledged:
  assumes "mark_completed r w = Inr w'" and "kv w (hash_key r) = Some (JStr (hash r))"
  shows "kv w' = kv w \<and> flags w' = flags w"
proof -
  from assms(1) obtain k where k: "py_key (instance_id r) = Inr k"
    by (auto simp: mark_completed_def Let_def split: sum.splits)
  from assms(1) have "w' = publish_set (relation (req_unit r)) ''completed''
            ((publish_get w (relation (req_unit r)) ''completed'' Map.empty)(k \<mapsto> JStr (hash r)))
            (kv_set (hash_key r) (JStr (hash r)) w)"
    unfolding mark_completed_Inr [OF k] by simp
  then show ?thesis
    using assms(2) by (auto simp: fun_upd_idem)
qed

lemma check_loop_frame:
  "check_loop rs b w = Inr (b', w') \<Longrightarrow>
   kv w' = kv w \<and> flags w' = flags w \<and> (b' \<longleftrightarrow> b \<or> (\<exists>r\<in>set rs. changed r w))"
proof (induction rs arbitrary: b w)
  case Nil
  then show ?case by simp
next
  case (Cons r rs)
  show ?case
  proof (cases "changed r w")
    case True
    with Cons.prems have "check_loop rs True w = Inr (b', w')"
      by simp
    from Cons.IH [OF this] True show ?thesis
      by auto
  next
    case False
    with Cons.prems obtain c where c: "is_completed r w = Inr c"
      by (auto split: sum.splits)
    show ?thesis
    proof (cases "\<not> c \<and> truthy (completed_for_instance r w)")
      case True
      with Cons.prems False c obtain w1 where
        m: "mark_completed r w = Inr w1" and l: "check_loop rs b w1 = Inr (b', w')"
        by (auto split: sum.splits)
      from True have "kv w (hash_key r) = Some (JStr (hash r))"
        by (simp add: cfi_iff)
      from mark_completed_acknowledged [OF m this] have f: "kv w1 = kv w" "flags w1 = flags w"
        by simp_all
      from Cons.IH [OF l] f False show ?thesis
        by (auto simp: changed_kv_cong [OF f(1)])
    next
      case skip: False
      with Cons.prems False c have "check_loop rs b w = Inr (b', w')"
        by auto
      from Cons.IH [OF this] False show ?thesis
        by auto
    qed
  qed
qed

lemma check_loop_total:
  "\<forall>r\<in>set rs. hashable (instance_id r) \<Longrightarrow> \<exists>res. check_loop rs b w = Inr res"
proof (induction rs arbitrary: b w)
  case Nil
  then show ?case by simp
next
  case (Cons r rs)
  from Cons.prems obtain k where k: "py_key (instance_id r) = Inr k"
    using hashable_py_key by fastforce
  from Cons.prems have rest: "\<forall>r\<in>set rs. hashable (instance_id r)"
    by simp
  show ?case
    using Cons.IH [OF rest]
    by (simp add: is_completed_Inr [OF k] mark_completed_Inr [OF k])
qed

lemma expand_requested: "expand_name n ''requested'' = ''endpoint.'' @ n @ ''.requested''"
  by (simp add: expand_name_def placeholder_def)

lemma expand_changed: "expand_name n ''changed'' = ''endpoint.'' @ n @ ''.changed''"
  by (simp add: expand_name_def placeholder_def)

lemma expand_requested_neq_changed: "expand_name n ''requested'' \<noteq> expand_name n ''changed''"
  by (simp add: expand_requested expand_changed)

lemma joined_aws_hashable:
  "\<forall>u\<in>set (all_joined_units aws). hashable (instance_id (IntegrationRequest u))"
  by (simp add: aws_def instance_id_P1)

lemma changed_P1_host0: "changed (IntegrationRequest P1) host0"
  by (simp add: changed_eq instance_id_P1 requested_P1 host0_def)

lemma cfi_P1_host1: "truthy (completed_for_instance (IntegrationRequest P1) host1)"
  by (simp add: cfi_iff instance_id_P1 requested_P1 host1_def hash_IntegrationRequest_nonempty)

lemma check_requests_returns:
  assumes "check_requests self w = Inr w'"
  shows "\<exists>b' w1. check_loop (all_requests self) False w = Inr (b', w1) \<and>
           w' = clear_flag (expand_name (endpoint_name self) ''changed'')
                  (toggle_flag (expand_name (endpoint_name self) ''requested'') b' w1)"
  using assms by (auto simp: check_requests_def split: sum.splits)

lemma check_requests_total:
  assumes "\<forall>u\<in>set (all_joined_units self). hashable (instance_id (IntegrationRequest u))"
  shows "\<exists>w'. check_requests self w = Inr w'"
proof -
  from assms have "\<forall>r\<in>set (all_requests self). hashable (instance_id r)"
    by (simp add: all_requests_def)
  from check_loop_total [OF this] obtain res where
    "check_loop (all_requests self) False w = Inr res"
    by blast
  then show ?thesis
    by (cases res) (simp add: check_requests_def)
qed

text \<open>C2. Whenever a pass of \<^verbatim>\<open>check_requests\<close> over the joined units returns, the flag
  \<^verbatim>\<open>requested\<close> is set exactly when some request is \<^verbatim>\<open>changed\<close>, and the flag
  \<^verbatim>\<open>changed\<close> is cleared, whatever the store, the outgoing data and the flags were; the
  store is left as it was. A request that is only \<^verbatim>\<open>completed_for_instance\<close> and not yet
  \<^verbatim>\<open>is_completed\<close> is not \<^verbatim>\<open>changed\<close>, so it does not set the flag. The pass returns
  when the instance ids can be dictionary keys: absent, or a JSON string (as the interface
  declares them), number or boolean.\<close>

theorem check_requests_sets_requested_iff_changed:
  "(\<forall>w'. check_requests self w = Inr w' \<longrightarrow>
      (expand_name (endpoint_name self) ''requested'' \<in> flags w' \<longleftrightarrow>
         (\<exists>r\<in>set (all_requests self). changed r w)) \<and>
      expand_name (endpoint_name self) ''changed'' \<notin> flags w' \<and>
      kv w' = kv w) \<and>
   ((\<forall>u\<in>set (all_joined_units self). hashable (instance_id (IntegrationRequest u))) \<longrightarrow>
      (\<exists>w'. check_requests self w = Inr w'))"
proof -
  have "(expand_name (endpoint_name self) ''requested'' \<in> flags w' \<longleftrightarrow>
         (\<exists>r\<in>set (all_requests self). changed r w)) \<and>
      expand_name (endpoint_name self) ''changed'' \<notin> flags w' \<and>
      kv w' = kv w"
    if "check_requests self w = Inr w'" for w'
  proof -
    from check_requests_returns [OF that] obtain b' w1 where
      l: "check_loop (all_requests self) False w = Inr (b', w1)" and
      w': "w' = clear_flag (expand_name (endpoint_name self) ''changed'')
                  (toggle_flag (expand_name (endpoint_name self) ''requested'') b' w1)"
      by blast
    from check_loop_frame [OF l] have
      f: "kv w1 = kv w" "b' \<longleftrightarrow> (\<exists>r\<in>set (all_requests self). changed r w)"
      by simp_all
    have "expand_name (endpoint_name self) ''requested'' \<in> flags w' \<longleftrightarrow> b'"
      using expand_requested_neq_changed [of "endpoint_name self"]
      by (auto simp: w' toggle_flag_def)
    moreover have "kv w' = kv w"
      by (simp add: w' f)
    moreover have "expand_name (endpoint_name self) ''changed'' \<notin> flags w'"
      by (simp add: w')
    ultimately show ?thesis
      using f(2) by simp
  qed
  then show ?thesis
    using check_requests_total [of self w] by blast
qed

theorem check_requests_sets_requested_iff_changed_witness:
  "(\<exists>w'. check_requests aws host0 = Inr w' \<and>
       ''endpoint.aws.requested'' \<in> flags w' \<and> ''endpoint.aws.changed'' \<notin> flags w') \<and>
   (\<exists>w'. check_requests aws host1 = Inr w' \<and>
       ''endpoint.aws.requested'' \<notin> flags w' \<and> ''endpoint.aws.changed'' \<notin> flags w')"
proof -
  have n: "expand_name (endpoint_name aws) ''requested'' = ''endpoint.aws.requested''"
    "expand_name (endpoint_name aws) ''changed'' = ''endpoint.aws.changed''"
    by (simp_all add: expand_requested expand_changed aws_def)
  have a: "\<exists>r\<in>set (all_requests aws). changed r host0"
    using changed_P1_host0 by (simp add: all_requests_def aws_def)
  have b: "\<not> (\<exists>r\<in>set (all_requests aws). changed r host1)"
    using cfi_P1_host1 by (simp add: all_requests_def aws_def changed_eq cfi_iff)
  show ?thesis
    using check_requests_sets_requested_iff_changed [of aws host0]
      check_requests_sets_requested_iff_changed [of aws host1]
      joined_aws_hashable a b
    unfolding n by blast
qed

text \<open>A request that is completed in the published map stays so while the pass handles
  other requests, when its acknowledgement is persisted and its instance id is a string.\<close>

lemma mark_completed_keeps_completed:
  assumes m: "mark_completed r' w = Inr w1"
    and ack': "kv w (hash_key r') = Some (JStr (hash r'))"
    and ack: "kv w (hash_key r) = Some (JStr (hash r))"
    and cmp: "is_completed r w = Inr True"
    and str: "instance_id r = JStr s"
  shows "is_completed r w1 = Inr True"
proof -
  from m obtain k' where k': "py_key (instance_id r') = Inr k'"
    by (auto simp: mark_completed_def Let_def split: sum.splits)
  have k: "py_key (instance_id r) = Inr (KStr s)"
    by (simp add: str)
  let ?rel = "relation (req_unit r)" and ?rel' = "relation (req_unit r')"
  from m have w1: "w1 = publish_set ?rel' ''completed''
            ((publish_get w ?rel' ''completed'' Map.empty)(k' \<mapsto> JStr (hash r')))
            (kv_set (hash_key r') (JStr (hash r')) w)"
    unfolding mark_completed_Inr [OF k'] by simp
  from cmp have old: "publish_get w ?rel ''completed'' Map.empty (KStr s) = Some (JStr (hash r))"
    by (simp add: is_completed_Inr [OF k])
  show ?thesis
  proof (cases "?rel' = ?rel \<and> k' = KStr s")
    case True
    with k' have "instance_id r' = JStr s"
      by (simp add: py_key_KStr)
    with True str have "hash_key r' = hash_key r"
      by (simp add: hash_key_def)
    with ack ack' have "hash r' = hash r"
      by simp
    with True show ?thesis
      by (simp add: is_completed_Inr [OF k] w1 publish_get_publish_set)
  next
    case False
    then show ?thesis
      using old by (auto simp: is_completed_Inr [OF k] w1 publish_get_publish_set)
  qed
qed

lemma check_loop_keeps_completed:
  assumes "check_loop rs b w = Inr (b', w')"
    and "kv w (hash_key r) = Some (JStr (hash r))"
    and "is_completed r w = Inr True"
    and "instance_id r = JStr s"
  shows "is_completed r w' = Inr True"
  using assms
proof (induction rs arbitrary: b w)
  case Nil
  then show ?case by simp
next
  case (Cons r' rs)
  show ?case
  proof (cases "changed r' w")
    case True
    with Cons.prems(1) have "check_loop rs True w = Inr (b', w')"
      by simp
    from Cons.IH [OF this Cons.prems(2,3,4)] show ?thesis .
  next
    case False
    with Cons.prems(1) obtain c where c: "is_completed r' w = Inr c"
      by (auto split: sum.splits)
    show ?thesis
    proof (cases "\<not> c \<and> truthy (completed_for_instance r' w)")
      case True
      with Cons.prems(1) False c obtain w1 where
        m: "mark_completed r' w = Inr w1" and l: "check_loop rs b w1 = Inr (b', w')"
        by (auto split: sum.splits)
      from True have ack': "kv w (hash_key r') = Some (JStr (hash r'))"
        by (simp add: cfi_iff)
      from mark_completed_acknowledged [OF m ack'] have f: "kv w1 = kv w"
        by simp
      have "is_completed r w1 = Inr True"
        by (rule mark_completed_keeps_completed [OF m ack' Cons.prems(2,3,4)])
      moreover have "kv w1 (hash_key r) = Some (JStr (hash r))"
        using Cons.prems(2) f by simp
      ultimately show ?thesis
        using Cons.IH [OF l] Cons.prems(4) by blast
    next
      case skip: False
      with Cons.prems(1) False c have "check_loop rs b w = Inr (b', w')"
        by auto
      from Cons.IH [OF this Cons.prems(2,3,4)] show ?thesis .
    qed
  qed
qed

lemma check_loop_reconciles:
  assumes "check_loop rs b w = Inr (b', w')"
    and "r \<in> set rs"
    and "truthy (completed_for_instance r w)"
    and "instance_id r = JStr s"
  shows "is_completed r w' = Inr True"
  using assms
proof (induction rs arbitrary: b w)
  case Nil
  then show ?case by simp
next
  case (Cons r' rs)
  have k: "py_key (instance_id r) = Inr (KStr s)"
    by (simp add: Cons.prems(4))
  from Cons.prems(3) have ack: "kv w (hash_key r) = Some (JStr (hash r))"
    by (simp add: cfi_iff)
  show ?case
  proof (cases "changed r' w")
    case True
    with Cons.prems(3) have "r' \<noteq> r"
      by (auto simp: changed_eq cfi_iff)
    with Cons.prems(2) have "r \<in> set rs"
      by simp
    moreover from True Cons.prems(1) have "check_loop rs True w = Inr (b', w')"
      by simp
    ultimately show ?thesis
      using Cons.IH Cons.prems(3,4) by blast
  next
    case False
    with Cons.prems(1) obtain c where c: "is_completed r' w = Inr c"
      by (auto split: sum.splits)
    show ?thesis
    proof (cases "\<not> c \<and> truthy (completed_for_instance r' w)")
      case True
      with Cons.prems(1) False c obtain w1 where
        m: "mark_completed r' w = Inr w1" and l: "check_loop rs b w1 = Inr (b', w')"
        by (auto split: sum.splits)
      from True have ack': "kv w (hash_key r') = Some (JStr (hash r'))"
        by (simp add: cfi_iff)
      from mark_completed_acknowledged [OF m ack'] have f: "kv w1 = kv w"
        by simp
      have ack1: "kv w1 (hash_key r) = Some (JStr (hash r))"
        using ack f by simp
      show ?thesis
      proof (cases "r' = r")
        case same: True
        from m same have "mark_completed r w = Inr w1"
          by simp
        then have "w1 = publish_set (relation (req_unit r)) ''completed''
            ((publish_get w (relation (req_unit r)) ''completed'' Map.empty)
               (KStr s \<mapsto> JStr (hash r)))
            (kv_set (hash_key r) (JStr (hash r)) w)"
          unfolding mark_completed_Inr [OF k] by simp
        then have "is_completed r w1 = Inr True"
          by (simp add: is_completed_Inr [OF k] publish_get_publish_set)
        from check_loop_keeps_completed [OF l ack1 this Cons.prems(4)] show ?thesis .
      next
        case other: False
        with Cons.prems(2) have "r \<in> set rs"
          by simp
        moreover have "truthy (completed_for_instance r w1)"
          using Cons.prems(3) by (simp add: cfi_kv_cong [OF f])
        ultimately show ?thesis
          using Cons.IH [OF l] Cons.prems(4) by blast
      qed
    next
      case skip: False
      with Cons.prems(1) False c have l: "check_loop rs b w = Inr (b', w')"
        by auto
      show ?thesis
      proof (cases "r' = r")
        case same: True
        with skip Cons.prems(3) c have "is_completed r w = Inr True"
          by auto
        from check_loop_keeps_completed [OF l ack this Cons.prems(4)] show ?thesis .
      next
        case other: False
        with Cons.prems(2) have "r \<in> set rs"
          by simp
        then show ?thesis
          using Cons.IH [OF l] Cons.prems(3,4) by blast
      qed
    qed
  qed
qed

text \<open>C5. Reconciliation. Take a request of a joined unit whose acknowledgement is
  persisted with its current hash (\<^verbatim>\<open>completed_for_instance\<close>), and whose instance id is a
  string, as the interface declares it. Whenever a pass of \<^verbatim>\<open>check_requests\<close> returns, the
  request is \<^verbatim>\<open>is_completed\<close>, on the same received data and with the store left as it
  was, whatever the published map held before (a missing or stale entry included). The
  pass returns when the instance ids of the joined units can be dictionary keys.\<close>

theorem check_requests_reconciles:
  assumes "r \<in> set (all_requests self)"
    and "\<exists>s. instance_id r = JStr s"
    and "truthy (completed_for_instance r w)"
  shows "(\<forall>w'. check_requests self w = Inr w' \<longrightarrow>
            is_completed r w' = Inr True \<and> kv w' = kv w) \<and>
         ((\<forall>u\<in>set (all_joined_units self). hashable (instance_id (IntegrationRequest u))) \<longrightarrow>
            (\<exists>w'. check_requests self w = Inr w'))"
proof -
  from assms(2) obtain s where s: "instance_id r = JStr s" ..
  have "is_completed r w' = Inr True \<and> kv w' = kv w"
    if "check_requests self w = Inr w'" for w'
  proof -
    from check_requests_returns [OF that] obtain b' w1 where
      l: "check_loop (all_requests self) False w = Inr (b', w1)" and
      w': "w' = clear_flag (expand_name (endpoint_name self) ''changed'')
                  (toggle_flag (expand_name (endpoint_name self) ''requested'') b' w1)"
      by blast
    from check_loop_frame [OF l] have f: "kv w1 = kv w"
      by simp
    from check_loop_reconciles [OF l assms(1) assms(3) s]
    have c: "is_completed r w1 = Inr True" .
    have "to_publish w' = to_publish w1"
      by (simp add: w')
    from is_completed_to_publish_cong [OF this] c have "is_completed r w' = Inr True"
      by simp
    moreover have "kv w' = kv w"
      by (simp add: w' f)
    ultimately show ?thesis
      by simp
  qed
  then show ?thesis
    using check_requests_total [of self w] by blast
qed

theorem check_requests_reconciles_witness:
  "is_completed (IntegrationRequest P1) host1 = Inr False \<and>
   (\<exists>w'. check_requests aws host1 = Inr w' \<and> is_completed (IntegrationRequest P1) w' = Inr True)"
proof -
  have "is_completed (IntegrationRequest P1) host1 = Inr False"
    by (simp add: is_completed_def instance_id_P1 publish_get_def host1_def)
  moreover have "IntegrationRequest P1 \<in> set (all_requests aws)"
    by (simp add: all_requests_def aws_def)
  moreover have "\<exists>s. instance_id (IntegrationRequest P1) = JStr s"
    by (simp add: instance_id_P1)
  ultimately show ?thesis
    using check_requests_reconciles [of "IntegrationRequest P1" aws host1]
      cfi_P1_host1 joined_aws_hashable
    by blast
qed

subsection \<open>Typed accessors\<close>

lemma tags_of_absent: "map_of (received (req_unit r)) k = None \<longrightarrow> tags_of r k = Inr []"
  by (simp add: tags_of_def received_get_def py_dict_def)

lemma tags_of_typed: "tags_typed (received (req_unit r)) k \<longrightarrow> (\<exists>d. tags_of r k = Inr d)"
  by (auto simp: tags_typed_def tags_of_def received_get_def py_dict_def
      split: option.splits json.splits)

lemma tags_of_scalar:
  "map_of (received (req_unit r)) k = Some v \<and> scalar v \<longrightarrow> tags_of r k = Inl TypeError"
  by (cases v) (simp_all add: tags_of_def received_get_def py_dict_def)

lemma patterns_of_absent:
  "map_of (received (req_unit r)) k = None \<longrightarrow> patterns_of r k = Inr []"
  by (simp add: patterns_of_def received_getitem_def py_or_def py_list_def)

lemma patterns_of_typed:
  "patterns_typed (received (req_unit r)) k \<longrightarrow> (\<exists>xs. patterns_of r k = Inr xs)"
  by (auto simp: patterns_typed_def patterns_of_def received_getitem_def py_or_def py_list_def
      split: option.splits json.splits)

lemma patterns_of_falsy:
  "map_of (received (req_unit r)) k = Some v \<and> \<not> truthy v \<longrightarrow> patterns_of r k = Inr []"
  by (simp add: patterns_of_def received_getitem_def py_or_def py_list_def)

lemma patterns_of_raises_iff:
  "(patterns_of r k = Inl TypeError) =
     (\<exists>x. map_of (received (req_unit r)) k = Some x \<and> scalar x \<and> truthy x)"
proof (cases "map_of (received (req_unit r)) k")
  case None
  then show ?thesis
    by (simp add: patterns_of_def received_getitem_def py_or_def py_list_def)
next
  case (Some v)
  then show ?thesis
    by (cases v) (simp_all add: patterns_of_def received_getitem_def py_or_def py_list_def)
qed

lemma patterns_of_no_ValueError: "patterns_of r k \<noteq> Inl ValueError"
proof (cases "map_of (received (req_unit r)) k")
  case None
  then show ?thesis
    by (simp add: patterns_of_def received_getitem_def py_or_def py_list_def)
next
  case (Some v)
  then show ?thesis
    by (cases v) (simp_all add: patterns_of_def received_getitem_def py_or_def py_list_def)
qed

lemma flag_of_absent: "map_of (received (req_unit r)) k = None \<longrightarrow> \<not> flag_of r k"
  by (simp add: flag_of_def received_getitem_def)

lemma is_completed_string_id:
  "(\<exists>s. instance_id r = JStr s) \<longrightarrow> (\<exists>c. is_completed r w = Inr c)"
  by (auto simp: is_completed_def Let_def)

lemma mark_completed_string_id:
  "(\<exists>s. instance_id r = JStr s) \<longrightarrow> (\<exists>w'. mark_completed r w = Inr w')"
  by (auto simp: mark_completed_def Let_def)

lemma check_requests_string_ids:
  "(\<forall>u\<in>set (all_joined_units self). \<exists>s. instance_id (IntegrationRequest u) = JStr s) \<longrightarrow>
     (\<exists>w'. check_requests self w = Inr w')"
proof
  assume "\<forall>u\<in>set (all_joined_units self). \<exists>s. instance_id (IntegrationRequest u) = JStr s"
  then have "\<forall>u\<in>set (all_joined_units self). hashable (instance_id (IntegrationRequest u))"
    by auto
  then show "\<exists>w'. check_requests self w = Inr w'"
    by (rule check_requests_total)
qed

text \<open>C7 as stated, that every typed accessor returns without raising on every received
  mapping, does not hold: a tags accessor has a default for an absent key only, a
  patterns accessor for an absent key and for a falsy value. Any other received value is
  handed to \<^verbatim>\<open>dict\<close> or \<^verbatim>\<open>list\<close> as it is, and the number 5 there raises
  \<^verbatim>\<open>TypeError\<close>.\<close>

theorem accessor_raises_on_malformed_value:
  "instance_tags (IntegrationRequest (P1\<lparr>received := [(''instance-tags'', JInt 5)]\<rparr>))
     = Inl TypeError \<and>
   object_storage_access_patterns
     (IntegrationRequest (P1\<lparr>received := [(''object-storage-access-patterns'', JInt 5)]\<rparr>))
     = Inl TypeError"
  by (simp add: instance_tags_def tags_of_def object_storage_access_patterns_def patterns_of_def
      IntegrationRequest_def received_get_def received_getitem_def py_dict_def py_list_def
      py_or_def)

text \<open>C7, amended. An accessor whose key is absent returns its default without raising:
  the empty mapping, the empty list, or false; the \<^verbatim>\<open>requested_*\<close> flags are booleans on
  every received mapping. A present value is not validated. The tags accessors return
  when the value is a mapping, and raise \<^verbatim>\<open>TypeError\<close> when it is \<^verbatim>\<open>null\<close>, a boolean or
  a number. The patterns accessors return when the value is a list or \<^verbatim>\<open>null\<close>, give the
  empty list for every falsy value, and raise exactly when the value is \<^verbatim>\<open>true\<close> or a
  number other than zero, with \<^verbatim>\<open>TypeError\<close>. \<^verbatim>\<open>is_completed\<close> and \<^verbatim>\<open>mark_completed\<close>
  return when the instance id is a string, and \<^verbatim>\<open>check_requests\<close> returns when the
  instance id of every joined unit is a string. (\<^verbatim>\<open>changed\<close>, \<^verbatim>\<open>completed_for_instance\<close>,
  \<^verbatim>\<open>clear\<close> and \<^verbatim>\<open>cleanup\<close> have nothing that raises.)\<close>

theorem safe_defaults_on_declared_types:
  "(tags_typed (received (req_unit r)) ''instance-tags'' \<longrightarrow> (\<exists>d. instance_tags r = Inr d)) \<and>
   (tags_typed (received (req_unit r)) ''instance-security-group-tags'' \<longrightarrow>
      (\<exists>d. instance_security_group_tags r = Inr d)) \<and>
   (tags_typed (received (req_unit r)) ''instance-subnet-tags'' \<longrightarrow>
      (\<exists>d. instance_subnet_tags r = Inr d)) \<and>
   (patterns_typed (received (req_unit r)) ''object-storage-access-patterns'' \<longrightarrow>
      (\<exists>xs. object_storage_access_patterns r = Inr xs)) \<and>
   (patterns_typed (received (req_unit r)) ''object-storage-management-patterns'' \<longrightarrow>
      (\<exists>xs. object_storage_management_patterns r = Inr xs)) \<and>
   (map_of (received (req_unit r)) ''instance-tags'' = None \<longrightarrow> instance_tags r = Inr []) \<and>
   (map_of (received (req_unit r)) ''instance-security-group-tags'' = None \<longrightarrow>
      instance_security_group_tags r = Inr []) \<and>
   (map_of (received (req_unit r)) ''instance-subnet-tags'' = None \<longrightarrow>
      instance_subnet_tags r = Inr []) \<and>
   (map_of (received (req_unit r)) ''object-storage-access-patterns'' = None \<longrightarrow>
      object_storage_access_patterns r = Inr []) \<and>
   (map_of (received (req_unit r)) ''object-storage-management-patterns'' = None \<longrightarrow>
      object_storage_management_patterns r = Inr []) \<and>
   (map_of (received (req_unit r)) ''enable-instance-inspection'' = None \<longrightarrow>
      \<not> requested_instance_inspection r) \<and>
   (map_of (received (req_unit r)) ''enable-acm-readonly'' = None \<longrightarrow>
      \<not> requested_acm_readonly r) \<and>
   (map_of (received (req_unit r)) ''enable-acm-fullaccess'' = None \<longrightarrow>
      \<not> requested_acm_fullaccess r) \<and>
   (map_of (received (req_unit r)) ''enable-network-management'' = None \<longrightarrow>
      \<not> requested_network_management r) \<and>
   (map_of (received (req_unit r)) ''enable-load-balancer-management'' = None \<longrightarrow>
      \<not> requested_load_balancer_management r) \<and>
   (map_of (received (req_unit r)) ''enable-block-storage-management'' = None \<longrightarrow>
      \<not> requested_block_storage_management r) \<and>
   (map_of (received (req_unit r)) ''enable-dns-management'' = None \<longrightarrow>
      \<not> requested_dns_management r) \<and>
   (map_of (received (req_unit r)) ''enable-object-storage-access'' = None \<longrightarrow>
      \<not> requested_object_storage_access r) \<and>
   (map_of (received (req_unit r)) ''enable-object-storage-management'' = None \<longrightarrow>
      \<not> requested_object_storage_management r) \<and>
   (map_of (received (req_unit r)) ''enable-ses-readonly'' = None \<longrightarrow>
      \<not> requested_ses_readonly r) \<and>
   (map_of (received (req_unit r)) ''enable-ses-fullaccess'' = None \<longrightarrow>
      \<not> requested_ses_fullaccess r) \<and>
   (map_of (received (req_unit r)) ''enable-sns-readonly'' = None \<longrightarrow>
      \<not> requested_sns_readonly r) \<and>
   (map_of (received (req_unit r)) ''enable-sns-fullaccess'' = None \<longrightarrow>
      \<not> requested_sns_fullaccess r) \<and>
   (map_of (received (req_unit r)) ''enable-mobiletargeting-readonly'' = None \<longrightarrow>
      \<not> requested_mobiletargeting_readonly r) \<and>
   (map_of (received (req_unit r)) ''enable-mobiletargeting-fullaccess'' = None \<longrightarrow>
      \<not> requested_mobiletargeting_fullaccess r) \<and>
   (map_of (received (req_unit r)) ''enable-sms-voice-readonly'' = None \<longrightarrow>
      \<not> requested_sms_voice_readonly r) \<and>
   (map_of (received (req_unit r)) ''enable-sms-voice-fullaccess'' = None \<longrightarrow>
      \<not> requested_sms_voice_fullaccess r) \<and>
   (map_of (received (req_unit r)) ''object-storage-access-patterns'' = Some v \<and> \<not> truthy v \<longrightarrow>
      object_storage_access_patterns r = Inr []) \<and>
   (map_of (received (req_unit r)) ''object-storage-management-patterns'' = Some v \<and> \<not> truthy v \<longrightarrow>
      object_storage_management_patterns r = Inr []) \<and>
   ((object_storage_access_patterns r = Inl TypeError) =
      (\<exists>x. map_of (received (req_unit r)) ''object-storage-access-patterns'' = Some x \<and>
           scalar x \<and> truthy x)) \<and>
   ((object_storage_management_patterns r = Inl TypeError) =
      (\<exists>x. map_of (received (req_unit r)) ''object-storage-management-patterns'' = Some x \<and>
           scalar x \<and> truthy x)) \<and>
   object_storage_access_patterns r \<noteq> Inl ValueError \<and>
   object_storage_management_patterns r \<noteq> Inl ValueError \<and>
   (map_of (received (req_unit r)) ''instance-tags'' = Some v \<and> scalar v \<longrightarrow>
      instance_tags r = Inl TypeError) \<and>
   (map_of (received (req_unit r)) ''instance-security-group-tags'' = Some v \<and> scalar v \<longrightarrow>
      instance_security_group_tags r = Inl TypeError) \<and>
   (map_of (received (req_unit r)) ''instance-subnet-tags'' = Some v \<and> scalar v \<longrightarrow>
      instance_subnet_tags r = Inl TypeError) \<and>
   ((\<exists>s. instance_id r = JStr s) \<longrightarrow> (\<exists>c. is_completed r w = Inr c)) \<and>
   ((\<exists>s. instance_id r = JStr s) \<longrightarrow> (\<exists>w'. mark_completed r w = Inr w')) \<and>
   ((\<forall>u\<in>set (all_joined_units self). \<exists>s. instance_id (IntegrationRequest u) = JStr s) \<longrightarrow>
      (\<exists>w'. check_requests self w = Inr w'))"
  unfolding instance_tags_def instance_security_group_tags_def instance_subnet_tags_def
    object_storage_access_patterns_def object_storage_management_patterns_def
    requested_instance_inspection_def requested_acm_readonly_def requested_acm_fullaccess_def
    requested_network_management_def requested_load_balancer_management_def
    requested_block_storage_management_def requested_dns_management_def
    requested_object_storage_access_def requested_object_storage_management_def
    requested_ses_readonly_def requested_ses_fullaccess_def requested_sns_readonly_def
    requested_sns_fullaccess_def requested_mobiletargeting_readonly_def
    requested_mobiletargeting_fullaccess_def requested_sms_voice_readonly_def
    requested_sms_voice_fullaccess_def
  by (intro conjI tags_of_typed patterns_of_typed tags_of_absent patterns_of_absent
      flag_of_absent tags_of_scalar patterns_of_falsy patterns_of_raises_iff
      patterns_of_no_ValueError is_completed_string_id mark_completed_string_id
      check_requests_string_ids)

theorem safe_defaults_on_declared_types_witness:
  "instance_tags (IntegrationRequest P1) = Inr [] \<and>
   \<not> requested_instance_inspection (IntegrationRequest P1) \<and>
   \<not> requested_sms_voice_fullaccess (IntegrationRequest P1) \<and>
   object_storage_access_patterns
     (IntegrationRequest (P1\<lparr>received := [(''object-storage-access-patterns'', JInt 0)]\<rparr>))
     = Inr [] \<and>
   object_storage_management_patterns
     (IntegrationRequest (P1\<lparr>received := [(''object-storage-management-patterns'', JBool True)]\<rparr>))
     = Inl TypeError \<and>
   instance_subnet_tags
     (IntegrationRequest (P1\<lparr>received := [(''instance-subnet-tags'', JNull)]\<rparr>))
     = Inl TypeError \<and>
   (\<exists>c. is_completed (IntegrationRequest P1) host0 = Inr c) \<and>
   (\<exists>w'. mark_completed (IntegrationRequest P1) host0 = Inr w') \<and>
   (\<exists>w'. check_requests aws host0 = Inr w')"
  using safe_defaults_on_declared_types [of "IntegrationRequest P1" "JNull" host0 aws]
    safe_defaults_on_declared_types
      [of "IntegrationRequest (P1\<lparr>received := [(''object-storage-access-patterns'', JInt 0)]\<rparr>)"
          "JInt 0"]
    safe_defaults_on_declared_types
      [of "IntegrationRequest (P1\<lparr>received := [(''object-storage-management-patterns'', JBool True)]\<rparr>)"]
    safe_defaults_on_declared_types
      [of "IntegrationRequest (P1\<lparr>received := [(''instance-subnet-tags'', JNull)]\<rparr>)" "JNull"]
  by (simp add: IntegrationRequest_def P1_def P1_received_def aws_def instance_id_def
      received_getitem_def)

subsection \<open>Defensive copies\<close>

lemma is_decoded_iff: "is_decoded obj \<longleftrightarrow> (\<exists>v. obj = Decoded v)"
  by (cases obj) simp_all

lemma received_ok_address:
  "received_ok h refs \<Longrightarrow> a \<in> snd ` set refs \<Longrightarrow> a < length h \<and> (\<exists>v. h ! a = Decoded v)"
  by (auto simp: received_ok_def list_all_iff is_decoded_iff)

lemma received_ok_lookup:
  assumes "received_ok h refs" and "map_of refs k = Some a"
  shows "a < length h \<and> (\<exists>v. h ! a = Decoded v)"
proof -
  from assms(2) have "(k, a) \<in> set refs"
    by (rule map_of_SomeD)
  then have "a \<in> snd ` set refs"
    by force
  with assms(1) show ?thesis
    by (rule received_ok_address)
qed

lemma map_of_load:
  "map_of (map (\<lambda>ka. (fst ka, f (snd ka))) refs) k = map_option f (map_of refs k)"
  by (induction refs) auto

text \<open>What an accessor returns is read from the received cell of its key alone.\<close>

lemma tags_h_result:
  assumes "received_ok h refs"
  shows "result_of (tags_h k h refs) =
           (case map_of refs k of
              None \<Rightarrow> Inr (DictObj [])
            | Some a \<Rightarrow> map_sum id DictObj (dict_of_obj (h ! a)))"
proof (cases "map_of refs k")
  case None
  then show ?thesis
    by (simp add: tags_h_def alloc_def nth_append)
next
  case (Some a)
  with assms have "a < length h"
    using received_ok_lookup by blast
  with Some show ?thesis
    by (simp add: tags_h_def alloc_def nth_append split: sum.splits)
qed

lemma patterns_h_result:
  assumes "received_ok h refs"
  shows "result_of (patterns_h k h refs) =
           (case map_of refs k of
              None \<Rightarrow> Inr (ListObj [])
            | Some a \<Rightarrow>
                if truthy_obj (h ! a) then map_sum id ListObj (list_of_obj (h ! a))
                else Inr (ListObj []))"
proof (cases "map_of refs k")
  case None
  then show ?thesis
    by (simp add: patterns_h_def alloc_def nth_append)
next
  case (Some a)
  with assms have "a < length h"
    using received_ok_lookup by blast
  with Some show ?thesis
    by (simp add: patterns_h_def alloc_def nth_append split: sum.splits)
qed

text \<open>The object returned sits in a cell that the heap did not have before the call, and
  the call leaves the cells the heap had as they were.\<close>

lemma tags_h_fresh:
  "tags_h k h refs = Inr (a, h') \<Longrightarrow> length h \<le> a \<and> a < length h' \<and> (\<exists>ys. h' = h @ ys)"
  by (auto simp: tags_h_def alloc_def Let_def split: sum.splits)

lemma patterns_h_fresh:
  "patterns_h k h refs = Inr (a, h') \<Longrightarrow> length h \<le> a \<and> a < length h' \<and> (\<exists>ys. h' = h @ ys)"
  by (auto simp: patterns_h_def alloc_def Let_def split: option.splits if_splits sum.splits)

lemma copying_accessors_cases:
  "acc \<in> set copying_accessors \<Longrightarrow> (\<exists>k. acc = tags_h k) \<or> (\<exists>k. acc = patterns_h k)"
  by (auto simp: copying_accessors_def instance_tags_h_def instance_security_group_tags_h_def
      instance_subnet_tags_h_def object_storage_access_patterns_h_def
      object_storage_management_patterns_h_def)

lemma copying_accessor_fresh:
  assumes "acc \<in> set copying_accessors" and "acc h refs = Inr (a, h')"
  shows "length h \<le> a \<and> a < length h' \<and> (\<exists>ys. h' = h @ ys)"
  using copying_accessors_cases [OF assms(1)] assms(2) tags_h_fresh patterns_h_fresh
  by blast

text \<open>Two heaps that agree on the cells of the first give the same received data and the
  same accessor results.\<close>

lemma heaps_agree:
  assumes ok: "received_ok h refs"
    and len: "length h \<le> length h2"
    and same: "\<forall>b<length h. h2 ! b = h ! b"
  shows "received_ok h2 refs" and "load h2 u refs = load h u refs"
    and "result_of (tags_h k h2 refs) = result_of (tags_h k h refs)"
    and "result_of (patterns_h k h2 refs) = result_of (patterns_h k h refs)"
proof -
  have cell: "a < length h2 \<and> h2 ! a = h ! a" if "a \<in> snd ` set refs" for a
    using received_ok_address [OF ok that] len same by auto
  show ok2: "received_ok h2 refs"
    using ok cell by (auto simp: received_ok_def list_all_iff)
  have "json_at h2 (snd ka) = json_at h (snd ka)" if "ka \<in> set refs" for ka
    using cell [of "snd ka"] that by (simp add: json_at_def)
  then show "load h2 u refs = load h u refs"
    by (simp add: load_def)
  have look: "h2 ! a = h ! a" if "map_of refs k = Some a" for a
    using cell [of a] map_of_SomeD [OF that] by force
  show "result_of (tags_h k h2 refs) = result_of (tags_h k h refs)"
    unfolding tags_h_result [OF ok] tags_h_result [OF ok2]
    by (simp add: look split: option.splits)
  show "result_of (patterns_h k h2 refs) = result_of (patterns_h k h refs)"
    unfolding patterns_h_result [OF ok] patterns_h_result [OF ok2]
    by (simp add: look split: option.splits)
qed

text \<open>The objects handed out hold what the accessors of the request compute from the
  received data.\<close>

lemma map_of_received_load:
  "map_of (received (req_unit (IntegrationRequest (load h u refs)))) k =
     map_option (json_at h) (map_of refs k)"
  by (simp add: IntegrationRequest_def load_def map_of_load)

lemma tags_h_refines:
  assumes "received_ok h refs"
  shows "result_of (tags_h k h refs) =
           map_sum id DictObj (tags_of (IntegrationRequest (load h u refs)) k)"
proof (cases "map_of refs k")
  case None
  then show ?thesis
    unfolding tags_h_result [OF assms]
    by (simp add: tags_of_def received_get_def map_of_received_load py_dict_def)
next
  case (Some a)
  with assms obtain v where "h ! a = Decoded v"
    using received_ok_lookup by blast
  then have "json_at h a = v"
    by (simp add: json_at_def)
  with Some \<open>h ! a = Decoded v\<close> show ?thesis
    unfolding tags_h_result [OF assms]
    by (simp add: tags_of_def received_get_def map_of_received_load)
qed

lemma patterns_h_refines:
  assumes "received_ok h refs"
  shows "result_of (patterns_h k h refs) =
           map_sum id ListObj (patterns_of (IntegrationRequest (load h u refs)) k)"
proof (cases "map_of refs k")
  case None
  then show ?thesis
    unfolding patterns_h_result [OF assms]
    by (simp add: patterns_of_def received_getitem_def map_of_received_load py_or_def
        py_list_def)
next
  case (Some a)
  with assms obtain v where "h ! a = Decoded v"
    using received_ok_lookup by blast
  then have "json_at h a = v"
    by (simp add: json_at_def)
  with Some \<open>h ! a = Decoded v\<close> show ?thesis
    unfolding patterns_h_result [OF assms]
    by (simp add: patterns_of_def received_getitem_def map_of_received_load py_or_def
        py_list_def)
qed

text \<open>C8. The dictionaries and lists returned by \<^verbatim>\<open>instance_tags\<close>,
  \<^verbatim>\<open>instance_security_group_tags\<close>, \<^verbatim>\<open>instance_subnet_tags\<close>,
  \<^verbatim>\<open>object_storage_access_patterns\<close> and \<^verbatim>\<open>object_storage_management_patterns\<close> are
  copies: the object returned is none of the received objects, it holds what the accessor
  of the request computes, and whatever a caller writes into it, the received data of the
  unit, the hash of its request and the result of every one of the five accessors stay
  what they were.\<close>

theorem accessors_return_defensive_copies:
  assumes "received_ok h refs"
    and "acc \<in> set copying_accessors"
    and "acc h refs = Inr (a, h')"
  shows "a \<notin> snd ` set refs \<and>
         (\<forall>obj.
            received_ok (h'[a := obj]) refs \<and>
            load (h'[a := obj]) u refs = load h u refs \<and>
            hash (IntegrationRequest (load (h'[a := obj]) u refs)) =
              hash (IntegrationRequest (load h u refs)) \<and>
            (\<forall>acc'\<in>set copying_accessors.
               result_of (acc' (h'[a := obj]) refs) = result_of (acc' h refs))) \<and>
         result_of (instance_tags_h h refs) =
           map_sum id DictObj (instance_tags (IntegrationRequest (load h u refs))) \<and>
         result_of (instance_security_group_tags_h h refs) =
           map_sum id DictObj (instance_security_group_tags (IntegrationRequest (load h u refs))) \<and>
         result_of (instance_subnet_tags_h h refs) =
           map_sum id DictObj (instance_subnet_tags (IntegrationRequest (load h u refs))) \<and>
         result_of (object_storage_access_patterns_h h refs) =
           map_sum id ListObj
             (object_storage_access_patterns (IntegrationRequest (load h u refs))) \<and>
         result_of (object_storage_management_patterns_h h refs) =
           map_sum id ListObj
             (object_storage_management_patterns (IntegrationRequest (load h u refs)))"
proof -
  from copying_accessor_fresh [OF assms(2,3)] obtain ys where
    fresh: "length h \<le> a" "a < length h'" and ext: "h' = h @ ys"
    by blast
  have not_received: "a \<notin> snd ` set refs"
    using received_ok_address [OF assms(1), of a] fresh(1) by auto
  have frame: "received_ok (h'[a := obj]) refs \<and>
        load (h'[a := obj]) u refs = load h u refs \<and>
        hash (IntegrationRequest (load (h'[a := obj]) u refs)) =
          hash (IntegrationRequest (load h u refs)) \<and>
        (\<forall>acc'\<in>set copying_accessors.
           result_of (acc' (h'[a := obj]) refs) = result_of (acc' h refs))" for obj
  proof -
    have len: "length h \<le> length (h'[a := obj])"
      by (simp add: ext)
    have same: "\<forall>b<length h. (h'[a := obj]) ! b = h ! b"
      using fresh(1) by (auto simp: ext nth_append)
    note agree = heaps_agree [OF assms(1) len same]
    have "result_of (acc' (h'[a := obj]) refs) = result_of (acc' h refs)"
      if "acc' \<in> set copying_accessors" for acc'
      using copying_accessors_cases [OF that] agree(3,4) by auto
    then show ?thesis
      using agree(1) agree(2) [of u] by simp
  qed
  show ?thesis
    using not_received frame
    by (simp add: instance_tags_h_def instance_security_group_tags_h_def
        instance_subnet_tags_h_def object_storage_access_patterns_h_def
        object_storage_management_patterns_h_def instance_tags_def
        instance_security_group_tags_def instance_subnet_tags_def
        object_storage_access_patterns_def object_storage_management_patterns_def
        tags_h_refines [OF assms(1)] patterns_h_refines [OF assms(1)])
qed

theorem accessors_return_defensive_copies_witness:
  "instance_tags_h heap0 refs0 =
     Inr (3, heap0 @ [DictObj [], DictObj [(KStr ''team'', JStr ''blue'')]]) \<and>
   received (load ((heap0 @ [DictObj [], DictObj [(KStr ''team'', JStr ''blue'')]])
                     [3 := DictObj [(KStr ''team'', JStr ''red'')]]) P1 refs0) =
     [(''instance-tags'', JObj [(''team'', JStr ''blue'')]), (''requested'', JBool True)] \<and>
   result_of
     (instance_tags_h
        ((heap0 @ [DictObj [], DictObj [(KStr ''team'', JStr ''blue'')]])
           [3 := DictObj [(KStr ''team'', JStr ''red'')]]) refs0) =
     Inr (DictObj [(KStr ''team'', JStr ''blue'')])"
proof -
  let ?h' = "heap0 @ [DictObj [], DictObj [(KStr ''team'', JStr ''blue'')]]"
  have ok: "received_ok heap0 refs0"
    by (simp add: received_ok_def heap0_def refs0_def)
  have acc: "instance_tags_h \<in> set copying_accessors"
    by (simp add: copying_accessors_def)
  have call: "instance_tags_h heap0 refs0 = Inr (3, ?h')"
    by (simp add: instance_tags_h_def tags_h_def alloc_def heap0_def refs0_def py_dict_def)
  have before: "received (load heap0 P1 refs0) =
      [(''instance-tags'', JObj [(''team'', JStr ''blue'')]), (''requested'', JBool True)]"
    by (simp add: load_def json_at_def heap0_def refs0_def)
  have result: "result_of (instance_tags_h heap0 refs0) =
      Inr (DictObj [(KStr ''team'', JStr ''blue'')])"
    unfolding call by (simp add: heap0_def)
  from accessors_return_defensive_copies [OF ok acc call, of P1]
  have "load (?h'[3 := DictObj [(KStr ''team'', JStr ''red'')]]) P1 refs0 = load heap0 P1 refs0"
    and "result_of (instance_tags_h (?h'[3 := DictObj [(KStr ''team'', JStr ''red'')]]) refs0) =
           result_of (instance_tags_h heap0 refs0)"
    using acc by blast+
  with call before result show ?thesis
    by simp
qed

end
